theory Spec2Isabelle
  imports Main
begin

section \<open>crossplane-diagnose: resource trees, deduplication and the failure summary\<close>

text \<open>
  A shallow embedding of \<^verbatim>\<open>pkg/tree/tree.go\<close> (the tree builder), of step 4 of
  \<^verbatim>\<open>rootCmd.Run\<close> with \<^verbatim>\<open>collectChildren\<close> (the filter of redundant top-level
  resources) and of \<^verbatim>\<open>report.GetSummary\<close>. A Go \<^verbatim>\<open>string\<close> is a \<^typ>\<open>string\<close>
  of bytes, a slice is a list, and a nil slice is the empty list.
\<close>

subsection \<open>Unstructured objects (k8s.io/apimachinery)\<close>

text \<open>
  The values an \<^verbatim>\<open>unstructured.Unstructured\<close> holds: \<^verbatim>\<open>map[string]interface{}\<close>,
  \<^verbatim>\<open>[]interface{}\<close>, strings, numbers, booleans and nil. A Go map is read here only
  through lookups; it is an association list read with \<^const>\<open>map_of\<close>. Numbers are never
  inspected by the code, only told apart from strings, maps and slices.
\<close>

datatype json =
    JNull
  | JBool bool
  | JNum int
  | JString string
  | JSlice "json list"
  | JMap "(string \<times> json) list"

type_synonym object = "(string \<times> json) list"

text \<open>
  The three outcomes of the library's nested accessors, which return
  \<^verbatim>\<open>(value, found, err)\<close>: \<^verbatim>\<open>(v, true, nil)\<close>, \<^verbatim>\<open>(nil, false, nil)\<close> and
  \<^verbatim>\<open>(nil, false, err)\<close>.
\<close>

datatype 'a nested = Found 'a | NotFound | AccessError

text \<open>
  \<^verbatim>\<open>unstructured.NestedFieldNoCopy\<close>: walks the fields; a nil value on the way is
  "not found", a value that is not a map is an accessor error.
\<close>

fun NestedFieldNoCopy :: "json \<Rightarrow> string list \<Rightarrow> json nested" where
  "NestedFieldNoCopy val [] = Found val"
| "NestedFieldNoCopy val (field # fields) =
     (case val of
        JNull \<Rightarrow> NotFound
      | JMap m \<Rightarrow>
          (case map_of m field of
             None \<Rightarrow> NotFound
           | Some v \<Rightarrow> NestedFieldNoCopy v fields)
      | _ \<Rightarrow> AccessError)"

text \<open>\<^verbatim>\<open>unstructured.NestedSlice\<close>: the value found must be a \<^verbatim>\<open>[]interface{}\<close>.\<close>

definition NestedSlice :: "object \<Rightarrow> string list \<Rightarrow> json list nested" where
  "NestedSlice obj fields =
     (case NestedFieldNoCopy (JMap obj) fields of
        Found (JSlice xs) \<Rightarrow> Found xs
      | Found _ \<Rightarrow> AccessError
      | NotFound \<Rightarrow> NotFound
      | AccessError \<Rightarrow> AccessError)"

text \<open>\<^verbatim>\<open>unstructured.NestedString\<close>: the value found must be a string.\<close>

definition NestedString :: "object \<Rightarrow> string list \<Rightarrow> string nested" where
  "NestedString obj fields =
     (case NestedFieldNoCopy (JMap obj) fields of
        Found (JString s) \<Rightarrow> Found s
      | Found _ \<Rightarrow> AccessError
      | NotFound \<Rightarrow> NotFound
      | AccessError \<Rightarrow> AccessError)"

text \<open>
  \<^verbatim>\<open>s, _, _ := unstructured.NestedString(...)\<close> and the library's
  \<^verbatim>\<open>getNestedString\<close>: the empty string unless a string was found.
\<close>

definition getNestedString :: "object \<Rightarrow> string list \<Rightarrow> string" where
  "getNestedString obj fields =
     (case NestedString obj fields of Found s \<Rightarrow> s | _ \<Rightarrow> [])"

definition GetKind :: "object \<Rightarrow> string" where
  "GetKind obj = getNestedString obj [''kind'']"

definition GetName :: "object \<Rightarrow> string" where
  "GetName obj = getNestedString obj [''metadata'', ''name'']"

definition GetNamespace :: "object \<Rightarrow> string" where
  "GetNamespace obj = getNestedString obj [''metadata'', ''namespace'']"

text \<open>
  The two-valued type assertion \<^verbatim>\<open>s, _ := m[key].(string)\<close>: the empty string when the
  key is missing or its value is not a string.
\<close>

definition stringField :: "(string \<times> json) list \<Rightarrow> string \<Rightarrow> string" where
  "stringField m key = (case map_of m key of Some (JString s) \<Rightarrow> s | _ \<Rightarrow> [])"

subsection \<open>Group, version, resource\<close>

record GroupVersionResource =
  Group :: string
  Version :: string
  Resource :: string

text \<open>
  \<^verbatim>\<open>schema.ParseGroupVersion\<close>: the empty string and \<^verbatim>\<open>"/"\<close> give the empty
  group and version; no slash gives the version alone, one slash splits, more slashes are
  an error.
\<close>

definition ParseGroupVersion :: "string \<Rightarrow> string + (string \<times> string)" where
  "ParseGroupVersion gv =
     (if length gv = 0 \<or> gv = ''/'' then Inr ([], [])
      else
        (case count_list gv (CHR ''/'') of
           0 \<Rightarrow> Inr ([], gv)
         | Suc 0 \<Rightarrow>
             Inr (takeWhile (\<lambda>c. c \<noteq> CHR ''/'') gv,
                  drop 1 (dropWhile (\<lambda>c. c \<noteq> CHR ''/'') gv))
         | _ \<Rightarrow> Inl (''unexpected GroupVersion string: '' @ gv)))"

text \<open>
  \<^verbatim>\<open>strings.ToLower\<close>. On a string of ASCII bytes only, Go lowers the letters
  \<^verbatim>\<open>A\<close> to \<^verbatim>\<open>Z\<close> byte by byte. On any other string it maps
  \<^verbatim>\<open>unicode.ToLower\<close> over the runes, from the Unicode tables of the library: that
  mapping is the parameter \<open>unicodeLower\<close> here.
\<close>

definition toLowerChar :: "char \<Rightarrow> char" where
  "toLowerChar c =
     (let n = (of_char c :: nat) in if 65 \<le> n \<and> n \<le> 90 then char_of (n + 32) else c)"

definition ToLower :: "(string \<Rightarrow> string) \<Rightarrow> string \<Rightarrow> string" where
  "ToLower unicodeLower s =
     (if list_all (\<lambda>c. (of_char c :: nat) < 128) s then map toLowerChar s
      else unicodeLower s)"

subsection \<open>The report's data (package report)\<close>

datatype ResourceStatus =
  ResourceStatus
    (Kind: string)
    (Name: string)
    (Synced: string)
    (Ready: string)
    (Status: string)
    (Events: "string list")
    (Conditions: "string list")
    (Children: "ResourceStatus list")

text \<open>
  \<^verbatim>\<open>CompositeData\<close>; its \<^verbatim>\<open>Name\<close> and \<^verbatim>\<open>Kind\<close> are \<open>cdName\<close> and \<open>cdKind\<close> here
  (the node's fields have the plain names), and the nil \<^verbatim>\<open>Tree\<close> is \<^const>\<open>None\<close>.
\<close>

record CompositeData =
  cdName :: string
  cdKind :: string
  TraceOutput :: string
  Error :: string
  Tree :: "ResourceStatus option"

subsection \<open>The dynamic client\<close>

text \<open>
  What the builder asks of \<^verbatim>\<open>dynamic.Interface\<close>: a cluster-wide get by resource and
  name, and a list in a namespace (the empty namespace lists all namespaces) under a
  field selector. Each call answers an error message (\<^const>\<open>Inl\<close>) or the data. The
  cluster is read as one snapshot: the same request has the same answer.
\<close>

record client =
  clientGet :: "GroupVersionResource \<Rightarrow> string \<Rightarrow> string + object"
  clientList :: "GroupVersionResource \<Rightarrow> string \<Rightarrow> string \<Rightarrow> string + object list"

text \<open>
  \<^verbatim>\<open>Builder\<close>: the client, and with it the mapping that \<^const>\<open>ToLower\<close> takes for
  the strings that are not ASCII.
\<close>

record Builder = client +
  unicodeToLower :: "string \<Rightarrow> string"

text \<open>The requests sent, in order: the builder's only effect.\<close>

datatype call =
    GetCall GroupVersionResource string
  | ListCall GroupVersionResource string string

subsection \<open>The tree builder (pkg/tree/tree.go)\<close>

text \<open>\<^verbatim>\<open>fetchEvents\<close>, lines 133-168: the selector, the list call, the formatted lines.\<close>

definition eventsGVR :: GroupVersionResource where
  "eventsGVR = \<lparr>Group = [], Version = ''v1'', Resource = ''events''\<rparr>"

definition fieldSelector :: "string \<Rightarrow> string \<Rightarrow> string" where
  "fieldSelector kind name =
     ''involvedObject.kind='' @ kind @ '',involvedObject.name='' @ name"

definition formatEvent :: "object \<Rightarrow> string" where
  "formatEvent item =
     (let reason = getNestedString item [''reason''];
          message = getNestedString item [''message''];
          typeStr = getNestedString item [''type'']
      in ''['' @ typeStr @ ''] '' @ reason @ '': '' @ message)"

definition fetchEvents :: "Builder \<Rightarrow> string \<Rightarrow> string \<Rightarrow> string \<Rightarrow> string + string list" where
  "fetchEvents b kind name namespace =
     (case clientList b eventsGVR namespace (fieldSelector kind name) of
        Inl err \<Rightarrow> Inl err
      | Inr items \<Rightarrow> Inr (map formatEvent items))"

definition fetchEventsCall :: "string \<Rightarrow> string \<Rightarrow> string \<Rightarrow> call" where
  "fetchEventsCall kind name namespace = ListCall eventsGVR namespace (fieldSelector kind name)"

text \<open>
  Lines 47-65, the loop over the conditions: an entry that is not a map is skipped; the
  others set \<^verbatim>\<open>Synced\<close> or \<^verbatim>\<open>Ready\<close> and append their formatted line.
\<close>

definition formatCondition :: "(string \<times> json) list \<Rightarrow> string" where
  "formatCondition cond =
     stringField cond ''type'' @ ''='' @ stringField cond ''status'' @ '' ('' @
     stringField cond ''reason'' @ ''): '' @ stringField cond ''message''"

fun applyConditions :: "ResourceStatus \<Rightarrow> json list \<Rightarrow> ResourceStatus" where
  "applyConditions node [] = node"
| "applyConditions node (c # conditions) =
     (case c of
        JMap cond \<Rightarrow>
          (let cType = stringField cond ''type'';
               cStatus = stringField cond ''status'';
               synced = (if cType = ''Synced'' then cStatus else Synced node);
               ready = (if cType = ''Ready'' then cStatus else Ready node)
           in applyConditions
                (ResourceStatus (Kind node) (Name node) synced ready (Status node)
                   (Events node) (Conditions node @ [formatCondition cond]) (Children node))
                conditions)
      | _ \<Rightarrow> applyConditions node conditions)"

text \<open>Lines 37-73: the fresh node, its conditions, its overall status.\<close>

definition overallStatus :: "ResourceStatus \<Rightarrow> string" where
  "overallStatus node =
     (if Ready node = ''True'' \<and> Synced node = ''True'' then ''Available'' else ''Unhealthy'')"

definition classifyNode :: "object \<Rightarrow> ResourceStatus" where
  "classifyNode obj =
     (let node = ResourceStatus (GetKind obj) (GetName obj) ''Unknown'' ''Unknown'' [] [] [] [];
          node = (case NestedSlice obj [''status'', ''conditions''] of
                    Found conditions \<Rightarrow> applyConditions node conditions
                  | _ \<Rightarrow> node)
      in ResourceStatus (Kind node) (Name node) (Synced node) (Ready node)
           (overallStatus node) (Events node) (Conditions node) (Children node))"

text \<open>Lines 116-120: the child appended when its fetch fails.\<close>

definition errorNode :: "string \<Rightarrow> string \<Rightarrow> string \<Rightarrow> ResourceStatus" where
  "errorNode kind refName err =
     ResourceStatus kind refName [] [] (''Error fetching: '' @ err) [] [] []"

definition childGVR :: "Builder \<Rightarrow> string \<times> string \<Rightarrow> string \<Rightarrow> GroupVersionResource" where
  "childGVR b gv kind =
     \<lparr>Group = fst gv, Version = snd gv, Resource = ToLower (unicodeToLower b) kind @ ''s''\<rparr>"

text \<open>
  \<^verbatim>\<open>buildNodeRecursive\<close>, lines 36-131, with the loop over \<^verbatim>\<open>spec.resourceRefs\<close>
  (lines 84-127) as \<open>buildChildren\<close>. The recursion of the source has no bound and no
  cycle check, so the model takes the depth it may still descend: \<^const>\<open>None\<close> is a
  descent that did not end within that depth. The result is the node and the requests
  sent, in order.
\<close>

fun buildNodeRecursive :: "nat \<Rightarrow> Builder \<Rightarrow> object \<Rightarrow> (ResourceStatus \<times> call list) option"
  and buildChildren :: "nat \<Rightarrow> Builder \<Rightarrow> json list \<Rightarrow> (ResourceStatus list \<times> call list) option"
where
  "buildNodeRecursive 0 b obj = None"
| "buildNodeRecursive (Suc depth) b obj =
     (let node = classifyNode obj;
          events = (case fetchEvents b (GetKind obj) (GetName obj) (GetNamespace obj) of
                      Inr events \<Rightarrow> events
                    | Inl err \<Rightarrow> Events node);
          evCall = fetchEventsCall (GetKind obj) (GetName obj) (GetNamespace obj)
      in case NestedSlice obj [''spec'', ''resourceRefs''] of
           Found refs \<Rightarrow>
             (case buildChildren depth b refs of
                None \<Rightarrow> None
              | Some (children, calls) \<Rightarrow>
                  Some (ResourceStatus (Kind node) (Name node) (Synced node) (Ready node)
                          (Status node) events (Conditions node) (Children node @ children),
                        evCall # calls))
         | _ \<Rightarrow>
             Some (ResourceStatus (Kind node) (Name node) (Synced node) (Ready node)
                     (Status node) events (Conditions node) (Children node),
                   [evCall]))"
| "buildChildren depth b [] = Some ([], [])"
| "buildChildren depth b (ref # refs) =
     (case ref of
        JMap refMap \<Rightarrow>
          (let apiVersion = stringField refMap ''apiVersion'';
               kind = stringField refMap ''kind'';
               refName = stringField refMap ''name''
           in if apiVersion = [] \<or> kind = [] \<or> refName = [] then buildChildren depth b refs
              else
                (case ParseGroupVersion apiVersion of
                   Inl err \<Rightarrow> buildChildren depth b refs
                 | Inr gv \<Rightarrow>
                     (case clientGet b (childGVR b gv kind) refName of
                        Inl err \<Rightarrow>
                          (case buildChildren depth b refs of
                             None \<Rightarrow> None
                           | Some (children, calls) \<Rightarrow>
                               Some (errorNode kind refName err # children,
                                     GetCall (childGVR b gv kind) refName # calls))
                      | Inr childObj \<Rightarrow>
                          (case buildNodeRecursive depth b childObj of
                             None \<Rightarrow> None
                           | Some (childNode, childCalls) \<Rightarrow>
                               (case buildChildren depth b refs of
                                  None \<Rightarrow> None
                                | Some (children, calls) \<Rightarrow>
                                    Some (childNode # children,
                                          GetCall (childGVR b gv kind) refName # childCalls @ calls))))))
      | _ \<Rightarrow> buildChildren depth b refs)"

text \<open>\<^verbatim>\<open>BuildTree\<close>, lines 26-34: the root's fetch, whose failure is the tree's error.\<close>

definition BuildTree ::
  "nat \<Rightarrow> Builder \<Rightarrow> GroupVersionResource \<Rightarrow> string \<Rightarrow> (string + ResourceStatus \<times> call list) option"
where
  "BuildTree depth b gvr name =
     (case clientGet b gvr name of
        Inl err \<Rightarrow> Some (Inl (''failed to get XR '' @ name @ '': '' @ err))
      | Inr xr \<Rightarrow>
          (case buildNodeRecursive depth b xr of
             None \<Rightarrow> None
           | Some (node, calls) \<Rightarrow> Some (Inr (node, GetCall gvr name # calls))))"

subsection \<open>The filter of redundant top-level resources (rootCmd.Run, step 4)\<close>

text \<open>The key \<^verbatim>\<open>fmt.Sprintf("%s/%s", kind, name)\<close> of lines 215 and 274.\<close>

definition resourceKey :: "string \<Rightarrow> string \<Rightarrow> string" where
  "resourceKey kind name = kind @ ''/'' @ name"

text \<open>
  \<^verbatim>\<open>collectChildren\<close>, lines 272-278, on the \<^verbatim>\<open>map[string]bool\<close> it updates in place;
  \<open>collectChildrenLoop\<close> is its loop over \<^verbatim>\<open>node.Children\<close>.
\<close>

fun collectChildren :: "ResourceStatus \<Rightarrow> (string \<rightharpoonup> bool) \<Rightarrow> (string \<rightharpoonup> bool)"
  and collectChildrenLoop :: "ResourceStatus list \<Rightarrow> (string \<rightharpoonup> bool) \<Rightarrow> (string \<rightharpoonup> bool)"
where
  "collectChildren (ResourceStatus kind name synced ready status events conditions children) m =
     collectChildrenLoop children m"
| "collectChildrenLoop [] m = m"
| "collectChildrenLoop (child # rest) m =
     collectChildrenLoop rest
       (collectChildren child (m(resourceKey (Kind child) (Name child) \<mapsto> True)))"

text \<open>Reading a \<^verbatim>\<open>map[string]bool\<close>: a missing key reads false.\<close>

definition lookupBool :: "(string \<rightharpoonup> bool) \<Rightarrow> string \<Rightarrow> bool" where
  "lookupBool m key = (case m key of Some v \<Rightarrow> v | None \<Rightarrow> False)"

text \<open>Lines 205-210: the keys of the children of every tree.\<close>

fun childResources :: "CompositeData list \<Rightarrow> (string \<rightharpoonup> bool) \<Rightarrow> (string \<rightharpoonup> bool)" where
  "childResources [] m = m"
| "childResources (res # results) m =
     childResources results
       (case Tree res of Some tree \<Rightarrow> collectChildren tree m | None \<Rightarrow> m)"

text \<open>Lines 213-222: the results whose key is not a child's, appended in order.\<close>

fun filteredResults :: "(string \<rightharpoonup> bool) \<Rightarrow> CompositeData list \<Rightarrow> CompositeData list" where
  "filteredResults m [] = []"
| "filteredResults m (res # results) =
     (if \<not> lookupBool m (resourceKey (cdKind res) (cdName res))
      then res # filteredResults m results
      else filteredResults m results)"

definition filterRedundant :: "CompositeData list \<Rightarrow> CompositeData list" where
  "filterRedundant results = filteredResults (childResources results Map.empty) results"

subsection \<open>The summary (report.GetSummary)\<close>

text \<open>\<^verbatim>\<open>strings.HasPrefix\<close> and \<^verbatim>\<open>strings.Contains\<close>.\<close>

fun HasPrefix :: "string \<Rightarrow> string \<Rightarrow> bool" where
  "HasPrefix s [] = True"
| "HasPrefix [] (p # ps) = False"
| "HasPrefix (c # s) (p # ps) = (c = p \<and> HasPrefix s ps)"

fun Contains :: "string \<Rightarrow> string \<Rightarrow> bool" where
  "Contains [] substr = (substr = [])"
| "Contains (c # s) substr = (HasPrefix (c # s) substr \<or> Contains s substr)"

text \<open>The line feed, and the UTF-8 bytes of the cross mark and of the check mark.\<close>

definition newline :: string where
  "newline = [CHR 0x0A]"

definition crossMark :: string where
  "crossMark = [CHR 0xE2, CHR 0x9D, CHR 0x8C]"

definition checkMark :: string where
  "checkMark = [CHR 0xE2, CHR 0x9C, CHR 0x85]"

text \<open>\<^verbatim>\<open>collectUnhealthy\<close>, lines 185-194, with its loop over the children.\<close>

fun collectUnhealthy :: "ResourceStatus \<Rightarrow> ResourceStatus list"
  and collectUnhealthyLoop :: "ResourceStatus list \<Rightarrow> ResourceStatus list"
where
  "collectUnhealthy (ResourceStatus kind name synced ready status events conditions children) =
     (if status \<noteq> ''Available'' \<and> status \<noteq> ''Synced''
      then [ResourceStatus kind name synced ready status events conditions children]
      else []) @ collectUnhealthyLoop children"
| "collectUnhealthyLoop [] = []"
| "collectUnhealthyLoop (child # rest) = collectUnhealthy child @ collectUnhealthyLoop rest"

text \<open>
  Lines 206-219, the reason of one unhealthy resource. \<open>firstMatch\<close> is the loop of
  lines 208-213: it leaves \<^verbatim>\<open>reason\<close> as it was unless a line matches.
\<close>

fun firstMatch :: "string list \<Rightarrow> string \<Rightarrow> string" where
  "firstMatch [] reason = reason"
| "firstMatch (cond # conds) reason =
     (if Contains cond ''False'' \<or> Contains cond ''Unknown'' then cond
      else firstMatch conds reason)"

definition pickReason :: "ResourceStatus \<Rightarrow> string" where
  "pickReason res =
     (let reason = ''Unknown reason'' in
      if length (Conditions res) > 0 then
        (let reason = firstMatch (Conditions res) reason in
         if reason = ''Unknown reason'' then Conditions res ! 0 else reason)
      else if length (Events res) > 0 then Events res ! 0
      else reason)"

text \<open>Lines 204-221: one entry per unhealthy resource, written to the builder.\<close>

definition childEntry :: "ResourceStatus \<Rightarrow> string" where
  "childEntry res =
     ''  - Child '' @ Kind res @ ''/'' @ Name res @ '': '' @ Status res @ newline @
     ''    Reason: '' @ pickReason res @ newline"

fun writeUnhealthy :: "string \<Rightarrow> ResourceStatus list \<Rightarrow> string" where
  "writeUnhealthy sb [] = sb"
| "writeUnhealthy sb (res # rest) = writeUnhealthy (sb @ childEntry res) rest"

text \<open>
  Lines 197-225, the loop over the data on the state
  \<^verbatim>\<open>(sb, failuresFound, hasFailures)\<close>.
\<close>

fun summaryLoop :: "string \<times> bool \<times> bool \<Rightarrow> CompositeData list \<Rightarrow> string \<times> bool \<times> bool" where
  "summaryLoop st [] = st"
| "summaryLoop (sb, failuresFound, hasFailures) (d # data) =
     (case Tree d of
        Some tree \<Rightarrow>
          (let unhealthy = collectUnhealthy tree in
           if length unhealthy > 0 then
             summaryLoop
               (writeUnhealthy
                  (sb @ crossMark @ '' Top Parent: '' @ cdKind d @ ''/'' @ cdName d @ newline)
                  unhealthy @ newline,
                True, True)
               data
           else summaryLoop (sb, failuresFound, hasFailures) data)
      | None \<Rightarrow> summaryLoop (sb, failuresFound, hasFailures) data)"

definition healthyLine :: string where
  "healthyLine = checkMark @ '' All resources are healthy!'' @ newline"

definition summaryHeader :: string where
  "summaryHeader = newline @ ''--- Summary ---'' @ newline"

definition GetSummary :: "CompositeData list \<Rightarrow> string \<times> bool" where
  "GetSummary data =
     (case summaryLoop (summaryHeader, False, False) data of
        (sb, failuresFound, hasFailures) \<Rightarrow>
          (if \<not> failuresFound then sb @ healthyLine else sb, hasFailures))"

subsection \<open>Notions of the specification\<close>

text \<open>The nodes of a tree, the root first, and the nodes below the root.\<close>

fun allNodes :: "ResourceStatus \<Rightarrow> ResourceStatus list"
  and allNodesOf :: "ResourceStatus list \<Rightarrow> ResourceStatus list"
where
  "allNodes (ResourceStatus kind name synced ready status events conditions children) =
     ResourceStatus kind name synced ready status events conditions children # allNodesOf children"
| "allNodesOf [] = []"
| "allNodesOf (child # rest) = allNodes child @ allNodesOf rest"

definition descendants :: "ResourceStatus \<Rightarrow> ResourceStatus list" where
  "descendants tree = allNodesOf (Children tree)"

text \<open>The descendants of every tree of a forest.\<close>

definition forestDescendants :: "CompositeData list \<Rightarrow> ResourceStatus list" where
  "forestDescendants results =
     concat (map (\<lambda>res. case Tree res of Some tree \<Rightarrow> descendants tree | None \<Rightarrow> []) results)"

text \<open>
  The condition list of an object (empty when \<^verbatim>\<open>status.conditions\<close> is no slice),
  its records of one type, and the status of the last of them.
\<close>

definition conditionsOf :: "object \<Rightarrow> json list" where
  "conditionsOf obj =
     (case NestedSlice obj [''status'', ''conditions''] of Found conditions \<Rightarrow> conditions | _ \<Rightarrow> [])"

fun recordsOfType :: "string \<Rightarrow> json list \<Rightarrow> (string \<times> json) list list" where
  "recordsOfType t [] = []"
| "recordsOfType t (JMap cond # conditions) =
     (if stringField cond ''type'' = t then cond # recordsOfType t conditions
      else recordsOfType t conditions)"
| "recordsOfType t (c # conditions) = recordsOfType t conditions"

definition lastStatus :: "string \<Rightarrow> json list \<Rightarrow> string option" where
  "lastStatus t conditions =
     (case rev (recordsOfType t conditions) of
        [] \<Rightarrow> None
      | cond # earlier \<Rightarrow> Some (stringField cond ''status''))"

text \<open>
  The declared reference list of an object (empty when \<^verbatim>\<open>spec.resourceRefs\<close> is no
  slice), the events the builder keeps for it (none when the fetch fails), and the
  resolution of one reference: its resource, kind and name, or nothing when the entry is
  no map, lacks an api version, a kind or a name, or has an api version that does not
  parse.
\<close>

definition refsOf :: "object \<Rightarrow> json list" where
  "refsOf obj =
     (case NestedSlice obj [''spec'', ''resourceRefs''] of Found refs \<Rightarrow> refs | _ \<Rightarrow> [])"

definition eventsOf :: "Builder \<Rightarrow> object \<Rightarrow> string list" where
  "eventsOf b obj =
     (case fetchEvents b (GetKind obj) (GetName obj) (GetNamespace obj) of
        Inr events \<Rightarrow> events
      | Inl err \<Rightarrow> [])"

definition resolveRef ::
  "Builder \<Rightarrow> json \<Rightarrow> (GroupVersionResource \<times> string \<times> string) option"
where
  "resolveRef b ref =
     (case ref of
        JMap refMap \<Rightarrow>
          (if stringField refMap ''apiVersion'' = [] \<or> stringField refMap ''kind'' = [] \<or>
              stringField refMap ''name'' = [] then None
           else
             (case ParseGroupVersion (stringField refMap ''apiVersion'') of
                Inl err \<Rightarrow> None
              | Inr gv \<Rightarrow>
                  Some (childGVR b gv (stringField refMap ''kind''),
                        stringField refMap ''kind'', stringField refMap ''name'')))
      | _ \<Rightarrow> None)"

text \<open>
  Where the nodes of a built tree come from: a node is the leaf of a failed fetch, or it
  was built from the root object or from an object the client returned, and the requests
  of its own build are among those of the tree.
\<close>

definition builtFrom :: "Builder \<Rightarrow> object \<Rightarrow> call list \<Rightarrow> ResourceStatus \<Rightarrow> bool" where
  "builtFrom b obj calls n \<longleftrightarrow>
     (\<exists>kind refName err. n = errorNode kind refName err) \<or>
     (\<exists>depth' obj' calls'.
        buildNodeRecursive depth' b obj' = Some (n, calls') \<and> set calls' \<subseteq> set calls \<and>
        (obj' = obj \<or> (\<exists>gvr name. clientGet b gvr name = Inr obj')))"

text \<open>The same cluster with every list call, so every event fetch, failing.\<close>

definition noEvents :: "string \<Rightarrow> Builder \<Rightarrow> Builder" where
  "noEvents err b = b\<lparr>clientList := (\<lambda>gvr namespace selector. Inl err)\<rparr>"

text \<open>A tree with the events of every node removed.\<close>

fun clearEvents :: "ResourceStatus \<Rightarrow> ResourceStatus"
  and clearEventsOf :: "ResourceStatus list \<Rightarrow> ResourceStatus list"
where
  "clearEvents (ResourceStatus kind name synced ready status events conditions children) =
     ResourceStatus kind name synced ready status [] conditions (clearEventsOf children)"
| "clearEventsOf [] = []"
| "clearEventsOf (child # rest) = clearEvents child # clearEventsOf rest"

text \<open>
  The reason of an unhealthy node as the specification orders it: the first condition
  line containing \<^verbatim>\<open>"False"\<close> or \<^verbatim>\<open>"Unknown"\<close>, else the first condition line, else
  the first event line, else the literal.
\<close>

definition specReason :: "ResourceStatus \<Rightarrow> string" where
  "specReason res =
     (case filter (\<lambda>cond. Contains cond ''False'' \<or> Contains cond ''Unknown'') (Conditions res) of
        cond # others \<Rightarrow> cond
      | [] \<Rightarrow>
          (case Conditions res of
             cond # others \<Rightarrow> cond
           | [] \<Rightarrow> (case Events res of ev # others \<Rightarrow> ev | [] \<Rightarrow> ''Unknown reason'')))"

text \<open>A tree of the forest has a node that the summary collects.\<close>

definition hasUnhealthy :: "CompositeData \<Rightarrow> bool" where
  "hasUnhealthy d = (case Tree d of Some tree \<Rightarrow> collectUnhealthy tree \<noteq> [] | None \<Rightarrow> False)"

text \<open>
  The summary in closed form. \<open>treeSection\<close> is what the loop of lines 197-225 writes
  for one entry of the data: nothing for a nil tree or a tree without unhealthy nodes,
  else the line of the top parent, the entry of every collected node and an empty line.
\<close>

definition topParentLine :: "CompositeData \<Rightarrow> string" where
  "topParentLine d = crossMark @ '' Top Parent: '' @ cdKind d @ ''/'' @ cdName d @ newline"

definition treeSection :: "CompositeData \<Rightarrow> string" where
  "treeSection d =
     (case Tree d of
        None \<Rightarrow> []
      | Some tree \<Rightarrow>
          (if collectUnhealthy tree = [] then []
           else topParentLine d @ concat (map childEntry (collectUnhealthy tree)) @ newline))"

text \<open>
  The summary as the specification words it: for each tree with a root, the nodes whose
  status is neither \<^verbatim>\<open>"Available"\<close> nor \<^verbatim>\<open>"Synced"\<close>, depth first; if there are any,
  the root's identity as the header of a failing group, then kind, name and status of each
  of them with its one reason line, chosen in the specification's order; and the single
  all-healthy line if no tree has such a node.
\<close>

definition unhealthyNodes :: "ResourceStatus \<Rightarrow> ResourceStatus list" where
  "unhealthyNodes tree =
     filter (\<lambda>n. Status n \<noteq> ''Available'' \<and> Status n \<noteq> ''Synced'') (allNodes tree)"

definition specEntry :: "ResourceStatus \<Rightarrow> string" where
  "specEntry res =
     ''  - Child '' @ Kind res @ ''/'' @ Name res @ '': '' @ Status res @ newline @
     ''    Reason: '' @ specReason res @ newline"

definition failingTree :: "CompositeData \<Rightarrow> bool" where
  "failingTree d = (case Tree d of Some tree \<Rightarrow> unhealthyNodes tree \<noteq> [] | None \<Rightarrow> False)"

definition specSection :: "CompositeData \<Rightarrow> string" where
  "specSection d =
     (case Tree d of
        None \<Rightarrow> []
      | Some tree \<Rightarrow>
          (if unhealthyNodes tree = [] then []
           else topParentLine d @ concat (map specEntry (unhealthyNodes tree)) @ newline))"

definition specSummary :: "CompositeData list \<Rightarrow> string \<times> bool" where
  "specSummary data =
     (summaryHeader @ concat (map specSection data) @
        (if list_ex failingTree data then [] else healthyLine),
      list_ex failingTree data)"

subsection \<open>An example cluster\<close>

text \<open>
  The scenario of the specification: the composite \<^verbatim>\<open>XDatabase/my-db\<close>, ready and
  synced, whose managed resource \<^verbatim>\<open>RDSInstance/my-db-abc\<close> failed to create. The
  composite also declares a reference without an api version, one whose api version does
  not parse, and one to a bucket that the cluster no longer has.
\<close>

definition exampleChild :: object where
  "exampleChild =
     [(''kind'', JString ''RDSInstance''),
      (''metadata'', JMap [(''name'', JString ''my-db-abc'')]),
      (''status'', JMap [(''conditions'', JSlice
         [JMap [(''type'', JString ''Ready''), (''status'', JString ''False''),
                (''reason'', JString ''CreateFailed''), (''message'', JString ''AWS error'')],
          JMap [(''type'', JString ''Synced''), (''status'', JString ''True''),
                (''reason'', JString []), (''message'', JString [])]])])]"

definition refChild :: "(string \<times> json) list" where
  "refChild =
     [(''apiVersion'', JString ''rds.aws/v1''), (''kind'', JString ''RDSInstance''),
      (''name'', JString ''my-db-abc'')]"

definition refNoVersion :: "(string \<times> json) list" where
  "refNoVersion =
     [(''apiVersion'', JString []), (''kind'', JString ''Subnet''),
      (''name'', JString ''net-1'')]"

definition refBadVersion :: "(string \<times> json) list" where
  "refBadVersion =
     [(''apiVersion'', JString ''a/b/c''), (''kind'', JString ''Subnet''),
      (''name'', JString ''net-2'')]"

definition refGone :: "(string \<times> json) list" where
  "refGone =
     [(''apiVersion'', JString ''v1''), (''kind'', JString ''Bucket''),
      (''name'', JString ''gone'')]"

definition exampleRefs :: "json list" where
  "exampleRefs = [JMap refChild, JMap refNoVersion, JMap refBadVersion, JMap refGone]"

definition exampleRoot :: object where
  "exampleRoot =
     [(''kind'', JString ''XDatabase''),
      (''metadata'', JMap [(''name'', JString ''my-db'')]),
      (''status'', JMap [(''conditions'', JSlice
         [JMap [(''type'', JString ''Ready''), (''status'', JString ''True''),
                (''reason'', JString []), (''message'', JString [])],
          JMap [(''type'', JString ''Synced''), (''status'', JString ''True''),
                (''reason'', JString []), (''message'', JString [])]])]),
      (''spec'', JMap [(''resourceRefs'', JSlice exampleRefs)])]"

definition exampleEvent :: object where
  "exampleEvent =
     [(''type'', JString ''Warning''), (''reason'', JString ''CannotCreate''),
      (''message'', JString ''quota exceeded'')]"

text \<open>
  The client of the example answers by name and by selector. Every kind of the example is
  ASCII, so the mapping for other strings is never asked; it is the identity here.
\<close>

definition exampleClient :: Builder where
  "exampleClient =
     \<lparr>clientGet = (\<lambda>gvr name. if name = ''my-db-abc'' then Inr exampleChild
                               else Inl ''not found''),
      clientList = (\<lambda>gvr namespace selector.
                      if selector = fieldSelector ''RDSInstance'' ''my-db-abc''
                      then Inr [exampleEvent] else Inr []),
      unicodeToLower = (\<lambda>s. s)\<rparr>"

definition exampleChildNode :: ResourceStatus where
  "exampleChildNode =
     ResourceStatus ''RDSInstance'' ''my-db-abc'' ''True'' ''False'' ''Unhealthy''
       [''[Warning] CannotCreate: quota exceeded'']
       [''Ready=False (CreateFailed): AWS error'', ''Synced=True (): ''] []"

definition exampleErrorNode :: ResourceStatus where
  "exampleErrorNode =
     ResourceStatus ''Bucket'' ''gone'' [] [] ''Error fetching: not found'' [] [] []"

definition exampleTree :: ResourceStatus where
  "exampleTree =
     ResourceStatus ''XDatabase'' ''my-db'' ''True'' ''True'' ''Available'' []
       [''Ready=True (): '', ''Synced=True (): '']
       [exampleChildNode, exampleErrorNode]"

definition exampleCalls :: "call list" where
  "exampleCalls =
     [ListCall eventsGVR [] (fieldSelector ''XDatabase'' ''my-db''),
      GetCall \<lparr>Group = ''rds.aws'', Version = ''v1'', Resource = ''rdsinstances''\<rparr> ''my-db-abc'',
      ListCall eventsGVR [] (fieldSelector ''RDSInstance'' ''my-db-abc''),
      GetCall \<lparr>Group = [], Version = ''v1'', Resource = ''buckets''\<rparr> ''gone'']"

definition exampleData :: CompositeData where
  "exampleData =
     \<lparr>cdName = ''my-db'', cdKind = ''XDatabase'', TraceOutput = [], Error = [],
      Tree = Some exampleTree\<rparr>"

text \<open>
  An object whose \<^verbatim>\<open>Ready\<close> condition has a status outside the three usual values,
  and whose \<^verbatim>\<open>Synced\<close> condition has a boolean for its status, not a string.
\<close>

definition rawObject :: object where
  "rawObject =
     [(''kind'', JString ''Bucket''),
      (''metadata'', JMap [(''name'', JString ''logs'')]),
      (''status'', JMap [(''conditions'', JSlice
         [JMap [(''type'', JString ''Ready''), (''status'', JString ''Creating'')],
          JMap [(''type'', JString ''Synced''), (''status'', JBool True)]])])]"

definition rawNode :: ResourceStatus where
  "rawNode =
     ResourceStatus ''Bucket'' ''logs'' [] ''Creating'' ''Unhealthy'' []
       [''Ready=Creating (): '', ''Synced= (): ''] []"

text \<open>
  The forest of the example: the composite, and its managed resource listed as a
  top-level resource of its own.
\<close>

definition exampleNested :: CompositeData where
  "exampleNested =
     \<lparr>cdName = ''my-db-abc'', cdKind = ''RDSInstance'', TraceOutput = [], Error = [],
      Tree = Some exampleChildNode\<rparr>"

definition exampleForest :: "CompositeData list" where
  "exampleForest = [exampleData, exampleNested]"

text \<open>
  A forest whose keys collide: the top-level resource of kind \<^verbatim>\<open>XNetwork\<close> named
  \<^verbatim>\<open>prod/eu\<close>, and a composite with a child of kind \<^verbatim>\<open>XNetwork/prod\<close> named
  \<^verbatim>\<open>eu\<close> whose fetch failed.
\<close>

definition slashRoot :: CompositeData where
  "slashRoot =
     \<lparr>cdName = ''prod/eu'', cdKind = ''XNetwork'', TraceOutput = [],
      Error = ''failed to get XR prod/eu: not found'', Tree = None\<rparr>"

definition slashOther :: CompositeData where
  "slashOther =
     \<lparr>cdName = ''site'', cdKind = ''XSite'', TraceOutput = [], Error = [],
      Tree = Some (ResourceStatus ''XSite'' ''site'' ''True'' ''True'' ''Available'' [] []
                     [errorNode ''XNetwork/prod'' ''eu'' ''not found''])\<rparr>"

text \<open>A composite that is healthy and has no children, as the builder reports it.\<close>

definition healthyData :: CompositeData where
  "healthyData =
     \<lparr>cdName = ''ok-db'', cdKind = ''XDatabase'', TraceOutput = [], Error = [],
      Tree = Some (ResourceStatus ''XDatabase'' ''ok-db'' ''True'' ''True'' ''Available'' []
                     [''Ready=True (): '', ''Synced=True (): ''] [])\<rparr>"

text \<open>
  An unhealthy resource one of whose condition lines is the text \<^verbatim>\<open>Unknown reason\<close>
  itself.
\<close>

definition sentinelNode :: ResourceStatus where
  "sentinelNode =
     ResourceStatus ''Bucket'' ''logs'' ''True'' ''Unknown'' ''Unhealthy'' []
       [''Synced=True (): '', ''Unknown reason''] []"

text \<open>
  A subnet whose first condition is fine and whose second is not, built without
  references; the forest of the composite and the subnet.
\<close>

definition lateObject :: object where
  "lateObject =
     [(''kind'', JString ''Subnet''),
      (''metadata'', JMap [(''name'', JString ''net-3'')]),
      (''status'', JMap [(''conditions'', JSlice
         [JMap [(''type'', JString ''Synced''), (''status'', JString ''True''),
                (''reason'', JString []), (''message'', JString [])],
          JMap [(''type'', JString ''Ready''), (''status'', JString ''False''),
                (''reason'', JString ''Creating''), (''message'', JString ''waiting'')]])])]"

definition lateNode :: ResourceStatus where
  "lateNode =
     ResourceStatus ''Subnet'' ''net-3'' ''True'' ''False'' ''Unhealthy'' []
       [''Synced=True (): '', ''Ready=False (Creating): waiting''] []"

definition lateData :: CompositeData where
  "lateData =
     \<lparr>cdName = ''net-3'', cdKind = ''Subnet'', TraceOutput = [], Error = [],
      Tree = Some lateNode\<rparr>"

section \<open>Properties\<close>

subsection \<open>The health classifier\<close>

lemma lastStatus_Nil: "lastStatus t [] = None"
  by (simp add: lastStatus_def)

lemma lastStatus_Cons:
  "lastStatus t (c # cs) =
     (case lastStatus t cs of
        Some s \<Rightarrow> Some s
      | None \<Rightarrow>
          (case c of
             JMap cond \<Rightarrow>
               if stringField cond ''type'' = t then Some (stringField cond ''status'') else None
           | _ \<Rightarrow> None))"
  by (cases c; cases "rev (recordsOfType t cs)") (simp_all add: lastStatus_def)

lemma applyConditions_Synced:
  "Synced (applyConditions node cs) =
     (case lastStatus ''Synced'' cs of None \<Rightarrow> Synced node | Some s \<Rightarrow> s)"
proof (induction cs arbitrary: node)
  case Nil
  show ?case by (simp add: lastStatus_Nil)
next
  case (Cons c cs)
  show ?case
    by (cases c) (simp_all add: Cons.IH lastStatus_Cons Let_def split: option.splits)
qed

lemma applyConditions_Ready:
  "Ready (applyConditions node cs) =
     (case lastStatus ''Ready'' cs of None \<Rightarrow> Ready node | Some s \<Rightarrow> s)"
proof (induction cs arbitrary: node)
  case Nil
  show ?case by (simp add: lastStatus_Nil)
next
  case (Cons c cs)
  show ?case
    by (cases c) (simp_all add: Cons.IH lastStatus_Cons Let_def split: option.splits)
qed

lemma applyConditions_Kind: "Kind (applyConditions node cs) = Kind node"
  by (induction cs arbitrary: node) (simp_all add: Let_def split: json.splits)

lemma applyConditions_Name: "Name (applyConditions node cs) = Name node"
  by (induction cs arbitrary: node) (simp_all add: Let_def split: json.splits)

lemma applyConditions_Events: "Events (applyConditions node cs) = Events node"
  by (induction cs arbitrary: node) (simp_all add: Let_def split: json.splits)

lemma applyConditions_Children: "Children (applyConditions node cs) = Children node"
  by (induction cs arbitrary: node) (simp_all add: Let_def split: json.splits)

lemma classifyNode_Synced:
  "Synced (classifyNode obj) =
     (case lastStatus ''Synced'' (conditionsOf obj) of None \<Rightarrow> ''Unknown'' | Some s \<Rightarrow> s)"
  by (simp add: classifyNode_def Let_def conditionsOf_def applyConditions_Synced lastStatus_Nil
      split: nested.splits option.splits)

lemma classifyNode_Ready:
  "Ready (classifyNode obj) =
     (case lastStatus ''Ready'' (conditionsOf obj) of None \<Rightarrow> ''Unknown'' | Some s \<Rightarrow> s)"
  by (simp add: classifyNode_def Let_def conditionsOf_def applyConditions_Ready lastStatus_Nil
      split: nested.splits option.splits)

lemma classifyNode_Status: "Status (classifyNode obj) = overallStatus (classifyNode obj)"
  by (simp add: classifyNode_def Let_def overallStatus_def)

lemma classifyNode_Kind: "Kind (classifyNode obj) = GetKind obj"
  by (simp add: classifyNode_def Let_def applyConditions_Kind split: nested.splits)

lemma classifyNode_Name: "Name (classifyNode obj) = GetName obj"
  by (simp add: classifyNode_def Let_def applyConditions_Name split: nested.splits)

lemma classifyNode_Events: "Events (classifyNode obj) = []"
  by (simp add: classifyNode_def Let_def applyConditions_Events split: nested.splits)

lemma classifyNode_Children: "Children (classifyNode obj) = []"
  by (simp add: classifyNode_def Let_def applyConditions_Children split: nested.splits)

text \<open>What a built node takes from the classification of its object.\<close>

lemma buildNodeRecursive_header:
  assumes "buildNodeRecursive depth b obj = Some (node, calls)"
  shows "Kind node = GetKind obj" and "Name node = GetName obj"
    and "Synced node = Synced (classifyNode obj)" and "Ready node = Ready (classifyNode obj)"
    and "Status node = Status (classifyNode obj)"
    and "Conditions node = Conditions (classifyNode obj)"
  using assms
  by (cases depth;
      auto simp: Let_def classifyNode_Kind classifyNode_Name split: nested.splits option.splits)+

text \<open>The example cluster, built to depth two.\<close>

lemma exampleChild_build:
  "buildNodeRecursive 1 exampleClient exampleChild =
     Some (exampleChildNode, [ListCall eventsGVR [] (fieldSelector ''RDSInstance'' ''my-db-abc'')])"
  by code_simp

lemma example_build:
  "buildNodeRecursive 2 exampleClient exampleRoot = Some (exampleTree, exampleCalls)"
  by code_simp

text \<open>
  C1. The node built from an object is \<^verbatim>\<open>"Available"\<close> exactly when the last condition
  record of type \<^verbatim>\<open>"Ready"\<close> and the last of type \<^verbatim>\<open>"Synced"\<close> both have the status
  \<^verbatim>\<open>"True"\<close>; in every other case, a missing record included, it is
  \<^verbatim>\<open>"Unhealthy"\<close>.
\<close>

theorem overall_status_available_iff:
  assumes "buildNodeRecursive depth b obj = Some (node, calls)"
  shows "(Status node = ''Available'' \<longleftrightarrow>
            lastStatus ''Ready'' (conditionsOf obj) = Some ''True'' \<and>
            lastStatus ''Synced'' (conditionsOf obj) = Some ''True'') \<and>
         (Status node = ''Available'' \<or> Status node = ''Unhealthy'')"
proof -
  have st: "Status node = overallStatus (classifyNode obj)"
    using buildNodeRecursive_header(5)[OF assms] classifyNode_Status by simp
  show ?thesis
    unfolding st overallStatus_def classifyNode_Synced classifyNode_Ready
    by (simp split: option.splits)
qed

theorem overall_status_available_iff_witness:
  "buildNodeRecursive 1 exampleClient exampleChild =
     Some (exampleChildNode, [ListCall eventsGVR [] (fieldSelector ''RDSInstance'' ''my-db-abc'')]) \<and>
   lastStatus ''Ready'' (conditionsOf exampleChild) = Some ''False'' \<and>
   lastStatus ''Synced'' (conditionsOf exampleChild) = Some ''True'' \<and>
   Status exampleChildNode = ''Unhealthy'' \<and>
   buildNodeRecursive 2 exampleClient exampleRoot = Some (exampleTree, exampleCalls) \<and>
   lastStatus ''Ready'' (conditionsOf exampleRoot) = Some ''True'' \<and>
   lastStatus ''Synced'' (conditionsOf exampleRoot) = Some ''True'' \<and>
   Status exampleTree = ''Available''"
proof -
  have ready: "lastStatus ''Ready'' (conditionsOf exampleChild) = Some ''False''"
    by code_simp
  have synced: "lastStatus ''Synced'' (conditionsOf exampleChild) = Some ''True''"
    by code_simp
  from overall_status_available_iff[OF exampleChild_build] ready
  have child: "Status exampleChildNode = ''Unhealthy''" by auto
  have ready': "lastStatus ''Ready'' (conditionsOf exampleRoot) = Some ''True''"
    by code_simp
  have synced': "lastStatus ''Synced'' (conditionsOf exampleRoot) = Some ''True''"
    by code_simp
  from overall_status_available_iff[OF example_build] ready' synced'
  have root: "Status exampleTree = ''Available''" by blast
  from exampleChild_build ready synced child example_build ready' synced' root
  show ?thesis by blast
qed

subsection \<open>The filter of redundant top-level resources\<close>

lemma allNodes_eq: "allNodes tree = tree # allNodesOf (Children tree)"
  by (cases tree) simp

lemma allNodesOf_append: "allNodesOf (xs @ ys) = allNodesOf xs @ allNodesOf ys"
  by (induction xs) simp_all

lemma lookupBool_upd: "lookupBool (m(k \<mapsto> True)) k' = (k' = k \<or> lookupBool m k')"
  by (simp add: lookupBool_def)

lemma lookupBool_empty: "lookupBool Map.empty k = False"
  by (simp add: lookupBool_def)

lemma collectChildren_keys:
  "lookupBool (collectChildren tree m) k =
     (lookupBool m k \<or> k \<in> (\<lambda>n. resourceKey (Kind n) (Name n)) ` set (allNodesOf (Children tree)))"
  "lookupBool (collectChildrenLoop nodes m) k =
     (lookupBool m k \<or> k \<in> (\<lambda>n. resourceKey (Kind n) (Name n)) ` set (allNodesOf nodes))"
proof (induction tree m and nodes m rule: collectChildren_collectChildrenLoop.induct)
  case (1 kind name synced ready status events conditions children m)
  then show ?case by simp
next
  case (2 m)
  show ?case by simp
next
  case (3 child rest m)
  show ?case
    unfolding collectChildrenLoop.simps "3.IH"(2) "3.IH"(1) lookupBool_upd
    by (auto simp: allNodes_eq[of child])
qed

lemma childResources_keys:
  "lookupBool (childResources results m) k =
     (lookupBool m k \<or> k \<in> (\<lambda>n. resourceKey (Kind n) (Name n)) ` set (forestDescendants results))"
proof (induction results arbitrary: m)
  case Nil
  show ?case by (simp add: forestDescendants_def)
next
  case (Cons res results)
  show ?case
    by (cases "Tree res")
       (auto simp: Cons.IH forestDescendants_def descendants_def collectChildren_keys(1))
qed

lemma filteredResults_filter:
  "filteredResults m results =
     filter (\<lambda>res. \<not> lookupBool m (resourceKey (cdKind res) (cdName res))) results"
  by (induction results) simp_all

lemma filterRedundant_filter:
  "filterRedundant results =
     filter (\<lambda>res. resourceKey (cdKind res) (cdName res) \<notin>
                    (\<lambda>n. resourceKey (Kind n) (Name n)) ` set (forestDescendants results)) results"
  by (simp add: filterRedundant_def filteredResults_filter childResources_keys lookupBool_empty)

text \<open>A key determines its kind and name when these contain no slash.\<close>

lemma slash_split_unique:
  assumes "CHR ''/'' \<notin> set a" "CHR ''/'' \<notin> set b"
    and "a @ CHR ''/'' # x = b @ CHR ''/'' # y"
  shows "a = b \<and> x = y"
  using assms
proof (induction a arbitrary: b)
  case Nil
  then show ?case by (cases b) auto
next
  case (Cons c a)
  then show ?case by (cases b) auto
qed

lemma resourceKey_inj:
  assumes "CHR ''/'' \<notin> set kind" "CHR ''/'' \<notin> set name"
    and "resourceKey kind' name' = resourceKey kind name"
  shows "kind' = kind \<and> name' = name"
proof -
  from assms(3) have eq: "kind' @ CHR ''/'' # name' = kind @ CHR ''/'' # name"
    by (simp add: resourceKey_def)
  have "CHR ''/'' \<notin> set kind'"
  proof
    assume "CHR ''/'' \<in> set kind'"
    then obtain a b where k': "kind' = a @ CHR ''/'' # b" "CHR ''/'' \<notin> set a"
      by (auto dest: split_list_first)
    with eq have "a @ CHR ''/'' # (b @ CHR ''/'' # name') = kind @ CHR ''/'' # name" by simp
    from slash_split_unique[OF k'(2) assms(1) this]
    have "b @ CHR ''/'' # name' = name" by simp
    then have "CHR ''/'' \<in> set name" by auto
    with assms(2) show False by simp
  qed
  from slash_split_unique[OF this assms(1) eq] show ?thesis .
qed

lemma forestDescendants_filter_subset:
  "set (forestDescendants (filter P results)) \<subseteq> set (forestDescendants results)"
  by (auto simp: forestDescendants_def)

text \<open>
  C9. The filter of redundant top-level resources is idempotent: applied to its own
  output it returns that output.
\<close>

theorem filterRedundant_idempotent:
  "filterRedundant (filterRedundant results) = filterRedundant results"
proof -
  let ?key = "\<lambda>res. resourceKey (cdKind res) (cdName res)"
  let ?keys = "\<lambda>rs. (\<lambda>n. resourceKey (Kind n) (Name n)) ` set (forestDescendants rs)"
  have sub: "?keys (filterRedundant results) \<subseteq> ?keys results"
    unfolding filterRedundant_filter[of results]
    using forestDescendants_filter_subset by blast
  have "filter (\<lambda>res. ?key res \<notin> ?keys (filterRedundant results)) (filterRedundant results)
          = filterRedundant results"
  proof (rule filter_True, rule ballI)
    fix res assume "res \<in> set (filterRedundant results)"
    then have "?key res \<notin> ?keys results"
      unfolding filterRedundant_filter[of results] by simp
    with sub show "?key res \<notin> ?keys (filterRedundant results)" by blast
  qed
  then show ?thesis
    using filterRedundant_filter[of "filterRedundant results"] by simp
qed


text \<open>
  C2, as amended. The filter keeps, in their input order, exactly the entries whose key
  \<^verbatim>\<open>kind/name\<close> is not the key of a node below the root of some tree of the forest.
  No entry whose (kind, name) pair is that of such a node survives; and for an entry whose
  kind and name contain no \<^verbatim>\<open>/\<close>, surviving is the same as its pair not being the
  pair of such a node.
\<close>

theorem filterRedundant_removes_by_key:
  "filterRedundant results =
     filter (\<lambda>res. resourceKey (cdKind res) (cdName res) \<notin>
                    (\<lambda>n. resourceKey (Kind n) (Name n)) ` set (forestDescendants results)) results
   \<and> (\<forall>res \<in> set (filterRedundant results).
         (cdKind res, cdName res) \<notin> (\<lambda>n. (Kind n, Name n)) ` set (forestDescendants results))
   \<and> (\<forall>res \<in> set results.
         CHR ''/'' \<notin> set (cdKind res) \<and> CHR ''/'' \<notin> set (cdName res) \<longrightarrow>
         (res \<in> set (filterRedundant results) \<longleftrightarrow>
          (cdKind res, cdName res) \<notin> (\<lambda>n. (Kind n, Name n)) ` set (forestDescendants results)))"
proof (intro conjI ballI impI)
  show "filterRedundant results =
     filter (\<lambda>res. resourceKey (cdKind res) (cdName res) \<notin>
                    (\<lambda>n. resourceKey (Kind n) (Name n)) ` set (forestDescendants results)) results"
    by (rule filterRedundant_filter)
next
  fix res assume "res \<in> set (filterRedundant results)"
  then have "resourceKey (cdKind res) (cdName res) \<notin>
      (\<lambda>n. resourceKey (Kind n) (Name n)) ` set (forestDescendants results)"
    unfolding filterRedundant_filter[of results] by simp
  then show "(cdKind res, cdName res) \<notin> (\<lambda>n. (Kind n, Name n)) ` set (forestDescendants results)"
    by force
next
  fix res
  assume res: "res \<in> set results"
    and slash: "CHR ''/'' \<notin> set (cdKind res) \<and> CHR ''/'' \<notin> set (cdName res)"
  have "resourceKey (cdKind res) (cdName res) \<in>
          (\<lambda>n. resourceKey (Kind n) (Name n)) ` set (forestDescendants results)
        \<longleftrightarrow> (cdKind res, cdName res) \<in> (\<lambda>n. (Kind n, Name n)) ` set (forestDescendants results)"
    using resourceKey_inj[of "cdKind res" "cdName res"] slash by force
  then show "res \<in> set (filterRedundant results) \<longleftrightarrow>
          (cdKind res, cdName res) \<notin> (\<lambda>n. (Kind n, Name n)) ` set (forestDescendants results)"
    unfolding filterRedundant_filter[of results] using res by simp
qed


theorem filterRedundant_removes_by_key_witness:
  "exampleData \<in> set exampleForest \<and> exampleNested \<in> set exampleForest \<and>
   CHR ''/'' \<notin> set (cdKind exampleData) \<and> CHR ''/'' \<notin> set (cdName exampleData) \<and>
   CHR ''/'' \<notin> set (cdKind exampleNested) \<and> CHR ''/'' \<notin> set (cdName exampleNested) \<and>
   (cdKind exampleData, cdName exampleData) \<notin>
     (\<lambda>n. (Kind n, Name n)) ` set (forestDescendants exampleForest) \<and>
   (cdKind exampleNested, cdName exampleNested) \<in>
     (\<lambda>n. (Kind n, Name n)) ` set (forestDescendants exampleForest) \<and>
   exampleData \<in> set (filterRedundant exampleForest) \<and>
   exampleNested \<notin> set (filterRedundant exampleForest) \<and>
   filterRedundant exampleForest = [exampleData]"
proof -
  have mem: "exampleData \<in> set exampleForest" "exampleNested \<in> set exampleForest"
    by (simp_all add: exampleForest_def)
  have slash: "CHR ''/'' \<notin> set (cdKind exampleData) \<and> CHR ''/'' \<notin> set (cdName exampleData)"
    "CHR ''/'' \<notin> set (cdKind exampleNested) \<and> CHR ''/'' \<notin> set (cdName exampleNested)"
    by (simp_all add: exampleData_def exampleNested_def)
  have d1: "(cdKind exampleData, cdName exampleData) \<notin>
     (\<lambda>n. (Kind n, Name n)) ` set (forestDescendants exampleForest)"
    by code_simp
  have d2: "(cdKind exampleNested, cdName exampleNested) \<in>
     (\<lambda>n. (Kind n, Name n)) ` set (forestDescendants exampleForest)"
    by code_simp
  have ne: "exampleNested \<noteq> exampleData"
    by (simp add: exampleData_def exampleNested_def)
  from filterRedundant_removes_by_key[of exampleForest] mem slash d1 d2
  have s1: "exampleData \<in> set (filterRedundant exampleForest)"
    and s2: "exampleNested \<notin> set (filterRedundant exampleForest)"
    by blast+
  have "filterRedundant exampleForest = [exampleData]"
    by code_simp
  with mem slash d1 d2 s1 s2 show ?thesis by simp
qed

text \<open>
  C2 as stated fails where keys collide: the entry \<^verbatim>\<open>XNetwork\<close>, \<^verbatim>\<open>prod/eu\<close> is
  removed although its pair is no descendant's.
\<close>

theorem filterRedundant_pair_counterexample:
  "(cdKind slashRoot, cdName slashRoot) \<notin>
     (\<lambda>n. (Kind n, Name n)) ` set (forestDescendants [slashRoot, slashOther]) \<and>
   filterRedundant [slashRoot, slashOther] = [slashOther]"
  by code_simp

theorem filterRedundant_idempotent_witness:
  "filterRedundant exampleForest = [exampleData] \<and>
   filterRedundant [exampleData] = [exampleData]"
proof -
  have e: "filterRedundant exampleForest = [exampleData]"
    by code_simp
  with filterRedundant_idempotent[of exampleForest] show ?thesis by simp
qed


subsection \<open>The summary\<close>

lemma collectUnhealthy_filter:
  "collectUnhealthy tree =
     filter (\<lambda>n. Status n \<noteq> ''Available'' \<and> Status n \<noteq> ''Synced'') (allNodes tree)"
  "collectUnhealthyLoop nodes =
     filter (\<lambda>n. Status n \<noteq> ''Available'' \<and> Status n \<noteq> ''Synced'') (allNodesOf nodes)"
  by (induction tree and nodes rule: collectUnhealthy_collectUnhealthyLoop.induct) simp_all

lemma summaryLoop_flags:
  "snd (summaryLoop (sb, failuresFound, hasFailures) data) =
     (failuresFound \<or> (\<exists>d \<in> set data. hasUnhealthy d),
      hasFailures \<or> (\<exists>d \<in> set data. hasUnhealthy d))"
proof (induction data arbitrary: sb failuresFound hasFailures)
  case Nil
  show ?case by simp
next
  case (Cons d data)
  show ?case
    by (cases "Tree d") (simp_all add: Cons.IH hasUnhealthy_def Let_def)
qed

lemma summaryLoop_healthy:
  assumes "\<forall>d \<in> set data. \<not> hasUnhealthy d"
  shows "fst (summaryLoop (sb, failuresFound, hasFailures) data) = sb"
  using assms
proof (induction data arbitrary: sb failuresFound hasFailures)
  case Nil
  show ?case by simp
next
  case (Cons d data)
  then show ?case
    by (cases "Tree d") (simp_all add: hasUnhealthy_def Let_def)
qed

lemma hasUnhealthy_iff:
  "hasUnhealthy d \<longleftrightarrow>
     (\<exists>tree. Tree d = Some tree \<and>
        (\<exists>n \<in> set (allNodes tree). Status n \<noteq> ''Available'' \<and> Status n \<noteq> ''Synced''))"
  by (cases "Tree d") (auto simp: hasUnhealthy_def collectUnhealthy_filter(1) filter_empty_conv)

lemma GetSummary_hasFailures:
  "snd (GetSummary data) = (\<exists>d \<in> set data. hasUnhealthy d)"
proof -
  obtain sb ff hf where r: "summaryLoop (summaryHeader, False, False) data = (sb, ff, hf)"
    by (cases "summaryLoop (summaryHeader, False, False) data") auto
  with summaryLoop_flags[of summaryHeader False False data]
  have "hf = (\<exists>d \<in> set data. hasUnhealthy d)" by simp
  with r show ?thesis by (simp add: GetSummary_def)
qed

lemma GetSummary_healthy_text:
  assumes "\<forall>d \<in> set data. \<not> hasUnhealthy d"
  shows "fst (GetSummary data) = summaryHeader @ healthyLine"
proof -
  obtain sb ff hf where r: "summaryLoop (summaryHeader, False, False) data = (sb, ff, hf)"
    by (cases "summaryLoop (summaryHeader, False, False) data") auto
  with summaryLoop_flags[of summaryHeader False False data] assms
  have "\<not> ff" by simp
  moreover from summaryLoop_healthy[OF assms, of summaryHeader False False] r
  have "sb = summaryHeader" by simp
  ultimately show ?thesis using r by (simp add: GetSummary_def)
qed

text \<open>
  C8, as amended. The summary reports failures exactly when some tree of the forest has a
  node whose status is neither \<^verbatim>\<open>"Available"\<close> nor \<^verbatim>\<open>"Synced"\<close>; when it reports
  none, its text is the header followed by the single all-healthy line.
\<close>

theorem GetSummary_failures_iff:
  "(snd (GetSummary data) \<longleftrightarrow>
      (\<exists>d \<in> set data. \<exists>tree. Tree d = Some tree \<and>
         (\<exists>n \<in> set (allNodes tree). Status n \<noteq> ''Available'' \<and> Status n \<noteq> ''Synced''))) \<and>
   (\<not> snd (GetSummary data) \<longrightarrow> fst (GetSummary data) = summaryHeader @ healthyLine)"
proof -
  have a: "snd (GetSummary data) \<longleftrightarrow>
      (\<exists>d \<in> set data. \<exists>tree. Tree d = Some tree \<and>
         (\<exists>n \<in> set (allNodes tree). Status n \<noteq> ''Available'' \<and> Status n \<noteq> ''Synced''))"
    unfolding GetSummary_hasFailures hasUnhealthy_iff ..
  have b: "\<not> snd (GetSummary data) \<longrightarrow> fst (GetSummary data) = summaryHeader @ healthyLine"
    using GetSummary_healthy_text[of data] GetSummary_hasFailures[of data] by blast
  from a b show ?thesis by blast
qed

theorem GetSummary_failures_iff_witness:
  "snd (GetSummary [healthyData]) = False \<and>
   fst (GetSummary [healthyData]) = summaryHeader @ healthyLine \<and>
   snd (GetSummary [exampleData]) = True \<and>
   exampleErrorNode \<in> set (allNodes exampleTree) \<and>
   Status exampleErrorNode \<noteq> ''Available'' \<and> Status exampleErrorNode \<noteq> ''Synced''"
proof -
  have h: "\<not> (\<exists>d \<in> set [healthyData]. \<exists>tree. Tree d = Some tree \<and>
         (\<exists>n \<in> set (allNodes tree). Status n \<noteq> ''Available'' \<and> Status n \<noteq> ''Synced''))"
    by (simp add: healthyData_def)
  have e: "exampleErrorNode \<in> set (allNodes exampleTree)"
    "Status exampleErrorNode \<noteq> ''Available''" "Status exampleErrorNode \<noteq> ''Synced''"
    by (simp_all add: exampleTree_def exampleErrorNode_def exampleChildNode_def)
  have t: "Tree exampleData = Some exampleTree" by (simp add: exampleData_def)
  from GetSummary_failures_iff[of "[healthyData]"] h
  have 1: "snd (GetSummary [healthyData]) = False"
    and 2: "fst (GetSummary [healthyData]) = summaryHeader @ healthyLine" by blast+
  from e t have "\<exists>d \<in> set [exampleData]. \<exists>tree. Tree d = Some tree \<and>
         (\<exists>n \<in> set (allNodes tree). Status n \<noteq> ''Available'' \<and> Status n \<noteq> ''Synced'')"
    by auto
  with GetSummary_failures_iff[of "[exampleData]"]
  have 3: "snd (GetSummary [exampleData]) = True" by blast
  from 1 2 3 e show ?thesis by simp
qed

text \<open>
  C8 as stated fails on the text: the summary of a healthy forest is not the all-healthy
  line alone, the header comes first.
\<close>

theorem GetSummary_header_counterexample:
  "GetSummary [healthyData] = (summaryHeader @ healthyLine, False) \<and>
   fst (GetSummary [healthyData]) \<noteq> healthyLine \<and>
   fst (GetSummary []) \<noteq> healthyLine"
  by code_simp


subsection \<open>The reason line\<close>

lemma firstMatch_filter:
  "firstMatch conds reason =
     (case filter (\<lambda>cond. Contains cond ''False'' \<or> Contains cond ''Unknown'') conds of
        cond # others \<Rightarrow> cond
      | [] \<Rightarrow> reason)"
  by (induction conds) simp_all

lemma pickReason_specReason:
  assumes "''Unknown reason'' \<notin> set (Conditions res)"
  shows "pickReason res = specReason res"
proof (cases "Conditions res")
  case Nil
  then show ?thesis
    by (cases "Events res") (simp_all add: pickReason_def specReason_def)
next
  case conds: (Cons c cs)
  then have len: "length (Conditions res) > 0" by simp
  show ?thesis
  proof (cases "filter (\<lambda>cond. Contains cond ''False'' \<or> Contains cond ''Unknown'') (Conditions res)")
    case Nil
    then have fm: "firstMatch (Conditions res) ''Unknown reason'' = ''Unknown reason''"
      by (simp add: firstMatch_filter)
    have "pickReason res = Conditions res ! 0"
      unfolding pickReason_def Let_def fm using len by simp
    moreover have "specReason res = c"
      unfolding specReason_def Nil using conds by simp
    ultimately show ?thesis using conds by simp
  next
    case (Cons m ms)
    then have "m \<in> set (filter (\<lambda>cond. Contains cond ''False'' \<or> Contains cond ''Unknown'') (Conditions res))"
      by simp
    then have "m \<in> set (Conditions res)"
      by simp
    with assms have ne: "m \<noteq> ''Unknown reason''" by blast
    have fm: "firstMatch (Conditions res) ''Unknown reason'' = m"
      by (simp add: firstMatch_filter Cons)
    have "pickReason res = m"
      unfolding pickReason_def Let_def fm using len ne by simp
    moreover have "specReason res = m"
      unfolding specReason_def Cons by simp
    ultimately show ?thesis by simp
  qed
qed


text \<open>
  Without the hypothesis the order is not the specification's: when the first matching
  line is the text \<^verbatim>\<open>Unknown reason\<close> itself, the code takes it for "no match" and
  reports the first condition line.
\<close>

lemma pickReason_sentinel_line:
  "Status sentinelNode \<noteq> ''Available'' \<and> Status sentinelNode \<noteq> ''Synced'' \<and>
   Conditions sentinelNode = [''Synced=True (): '', ''Unknown reason''] \<and>
   specReason sentinelNode = ''Unknown reason'' \<and>
   pickReason sentinelNode = ''Synced=True (): ''"
  by code_simp

lemma pickReason_exampleChildNode:
  "pickReason exampleChildNode = ''Ready=False (CreateFailed): AWS error''"
  by code_simp

subsection \<open>The tree builder\<close>

lemma buildNodeRecursive_Suc:
  "buildNodeRecursive (Suc depth) b obj =
     (case buildChildren depth b (refsOf obj) of
        None \<Rightarrow> None
      | Some (children, calls) \<Rightarrow>
          Some (ResourceStatus (GetKind obj) (GetName obj) (Synced (classifyNode obj))
                  (Ready (classifyNode obj)) (Status (classifyNode obj)) (eventsOf b obj)
                  (Conditions (classifyNode obj)) children,
                fetchEventsCall (GetKind obj) (GetName obj) (GetNamespace obj) # calls))"
  by (simp add: Let_def refsOf_def eventsOf_def classifyNode_Kind classifyNode_Name
      classifyNode_Events classifyNode_Children
      split: nested.splits option.splits sum.splits)

lemma buildChildren_Cons:
  "buildChildren depth b (ref # refs) =
     (case resolveRef b ref of
        None \<Rightarrow> buildChildren depth b refs
      | Some (gvr, kind, refName) \<Rightarrow>
          (case clientGet b gvr refName of
             Inl err \<Rightarrow>
               (case buildChildren depth b refs of
                  None \<Rightarrow> None
                | Some (children, calls) \<Rightarrow>
                    Some (errorNode kind refName err # children, GetCall gvr refName # calls))
           | Inr childObj \<Rightarrow>
               (case buildNodeRecursive depth b childObj of
                  None \<Rightarrow> None
                | Some (childNode, childCalls) \<Rightarrow>
                    (case buildChildren depth b refs of
                       None \<Rightarrow> None
                     | Some (children, calls) \<Rightarrow>
                         Some (childNode # children,
                               GetCall gvr refName # childCalls @ calls)))))"
  by (cases ref) (simp_all add: resolveRef_def Let_def split: sum.splits)

lemma buildChildren_append:
  "buildChildren depth b (xs @ ys) =
     (case buildChildren depth b xs of
        None \<Rightarrow> None
      | Some (children, calls) \<Rightarrow>
          (case buildChildren depth b ys of
             None \<Rightarrow> None
           | Some (children', calls') \<Rightarrow> Some (children @ children', calls @ calls')))"
proof (induction xs)
  case Nil
  show ?case by (simp split: option.splits)
next
  case (Cons ref xs)
  show ?case
    unfolding append_Cons buildChildren_Cons Cons.IH
    by (simp split: option.splits sum.splits prod.splits)
qed


declare buildNodeRecursive.simps(2) [simp del] buildChildren.simps(2) [simp del]

lemma errorNode_fields:
  "Kind (errorNode kind refName err) = kind"
  "Name (errorNode kind refName err) = refName"
  "Synced (errorNode kind refName err) = []"
  "Ready (errorNode kind refName err) = []"
  "Status (errorNode kind refName err) = ''Error fetching: '' @ err"
  "Events (errorNode kind refName err) = []"
  "Conditions (errorNode kind refName err) = []"
  "Children (errorNode kind refName err) = []"
  by (simp_all add: errorNode_def)

lemma allNodes_errorNode: "allNodes (errorNode kind refName err) = [errorNode kind refName err]"
  by (simp add: errorNode_def)

lemma builtFrom_mono:
  assumes "builtFrom b obj calls n" "set calls \<subseteq> set calls'"
  shows "builtFrom b obj calls' n"
  using assms unfolding builtFrom_def by blast

lemma builtFrom_fetched:
  assumes "builtFrom b obj' calls n" "clientGet b gvr name = Inr obj'"
  shows "builtFrom b obj calls n"
  using assms unfolding builtFrom_def by blast

lemma buildChildren_builtFrom:
  assumes IH: "\<And>obj' tree calls n. buildNodeRecursive depth b obj' = Some (tree, calls) \<Longrightarrow>
                  n \<in> set (allNodes tree) \<Longrightarrow> builtFrom b obj' calls n"
    and "buildChildren depth b refs = Some (children, calls)"
    and "n \<in> set (allNodesOf children)"
  shows "builtFrom b obj calls n"
  using assms(2,3)
proof (induction refs arbitrary: children calls)
  case Nil
  then show ?case by simp
next
  case (Cons ref refs)
  show ?case
  proof (cases "resolveRef b ref")
    case None
    with Cons.prems(1) have "buildChildren depth b refs = Some (children, calls)"
      by (simp add: buildChildren_Cons)
    from Cons.IH[OF this Cons.prems(2)] show ?thesis .
  next
    case (Some r)
    then obtain gvr kind refName where r: "resolveRef b ref = Some (gvr, kind, refName)"
      by (cases r) auto
    show ?thesis
    proof (cases "clientGet b gvr refName")
      case (Inl err)
      with r Cons.prems(1) obtain rest rcalls where
        rest: "buildChildren depth b refs = Some (rest, rcalls)"
        and ch: "children = errorNode kind refName err # rest"
        and ca: "calls = GetCall gvr refName # rcalls"
        by (auto simp: buildChildren_Cons split: option.splits)
      from Cons.prems(2) ch
      have "n = errorNode kind refName err \<or> n \<in> set (allNodesOf rest)"
        by (simp add: allNodes_errorNode)
      then show ?thesis
      proof
        assume "n = errorNode kind refName err"
        then show ?thesis unfolding builtFrom_def by blast
      next
        assume "n \<in> set (allNodesOf rest)"
        from Cons.IH[OF rest this] ca show ?thesis
          by (auto intro: builtFrom_mono)
      qed
    next
      case (Inr childObj)
      with r Cons.prems(1) obtain childNode childCalls rest rcalls where
        child: "buildNodeRecursive depth b childObj = Some (childNode, childCalls)"
        and rest: "buildChildren depth b refs = Some (rest, rcalls)"
        and ch: "children = childNode # rest"
        and ca: "calls = GetCall gvr refName # childCalls @ rcalls"
        by (auto simp: buildChildren_Cons split: option.splits)
      from Cons.prems(2) ch
      have "n \<in> set (allNodes childNode) \<or> n \<in> set (allNodesOf rest)"
        by simp
      then show ?thesis
      proof
        assume "n \<in> set (allNodes childNode)"
        from IH[OF child this] have "builtFrom b childObj childCalls n" .
        from builtFrom_fetched[OF this Inr] have "builtFrom b obj childCalls n" .
        then show ?thesis using ca by (auto intro: builtFrom_mono)
      next
        assume "n \<in> set (allNodesOf rest)"
        from Cons.IH[OF rest this] ca show ?thesis
          by (auto intro: builtFrom_mono)
      qed
    qed
  qed
qed

lemma buildNodeRecursive_builtFrom:
  assumes "buildNodeRecursive depth b obj = Some (tree, calls)"
    and "n \<in> set (allNodes tree)"
  shows "builtFrom b obj calls n"
  using assms
proof (induction depth arbitrary: obj tree calls n)
  case 0
  then show ?case by simp
next
  case (Suc depth)
  from Suc.prems(1) obtain children ccalls where
    ch: "buildChildren depth b (refsOf obj) = Some (children, ccalls)"
    and tree: "Children tree = children"
    and calls: "calls = fetchEventsCall (GetKind obj) (GetName obj) (GetNamespace obj) # ccalls"
    by (auto simp: buildNodeRecursive_Suc split: option.splits)
  from Suc.prems(2) tree have "n = tree \<or> n \<in> set (allNodesOf children)"
    by (simp add: allNodes_eq[of tree])
  then show ?case
  proof
    assume "n = tree"
    with Suc.prems(1) show ?thesis unfolding builtFrom_def by blast
  next
    assume "n \<in> set (allNodesOf children)"
    have "builtFrom b obj ccalls n"
      by (rule buildChildren_builtFrom[where obj = obj, OF Suc.IH ch \<open>n \<in> set (allNodesOf children)\<close>])
    then show ?thesis using calls by (auto intro: builtFrom_mono)
  qed
qed


text \<open>
  The depth bound is no part of the result: a tree built within one depth is the tree
  built within any greater depth, and an object without references is built within any
  depth but zero.
\<close>

lemma buildChildren_depth_mono:
  assumes IH: "\<And>obj r. buildNodeRecursive depth b obj = Some r \<Longrightarrow>
                 buildNodeRecursive depth' b obj = Some r"
    and "buildChildren depth b refs = Some r"
  shows "buildChildren depth' b refs = Some r"
  using assms(2)
proof (induction refs arbitrary: r)
  case Nil
  then show ?case by simp
next
  case (Cons ref refs)
  show ?case
  proof (cases "resolveRef b ref")
    case None
    with Cons show ?thesis by (simp add: buildChildren_Cons)
  next
    case (Some t)
    then obtain gvr kind refName where t: "resolveRef b ref = Some (gvr, kind, refName)"
      by (cases t) auto
    show ?thesis
    proof (cases "clientGet b gvr refName")
      case (Inl err)
      with t Cons.prems obtain rest where "buildChildren depth b refs = Some rest"
        by (auto simp: buildChildren_Cons split: option.splits)
      with Cons.IH[OF this] t Inl Cons.prems show ?thesis
        by (simp add: buildChildren_Cons)
    next
      case (Inr childObj)
      with t Cons.prems obtain child rest where
        c: "buildNodeRecursive depth b childObj = Some child"
        and r: "buildChildren depth b refs = Some rest"
        by (auto simp: buildChildren_Cons split: option.splits)
      with IH[OF c] Cons.IH[OF r] t Inr Cons.prems show ?thesis
        by (simp add: buildChildren_Cons)
    qed
  qed
qed

lemma buildNodeRecursive_depth_mono:
  assumes "buildNodeRecursive depth b obj = Some r" and "depth \<le> depth'"
  shows "buildNodeRecursive depth' b obj = Some r"
  using assms
proof (induction depth arbitrary: depth' obj r)
  case 0
  then show ?case by simp
next
  case (Suc depth)
  from Suc.prems(2) obtain d' where d': "depth' = Suc d'" "depth \<le> d'"
    by (cases depth') auto
  from Suc.prems(1) obtain cs where cs: "buildChildren depth b (refsOf obj) = Some cs"
    by (auto simp: buildNodeRecursive_Suc split: option.splits)
  have "buildChildren d' b (refsOf obj) = Some cs"
    by (rule buildChildren_depth_mono[OF _ cs]) (rule Suc.IH[OF _ d'(2)])
  with cs Suc.prems(1) show ?case
    unfolding d'(1) by (simp add: buildNodeRecursive_Suc)
qed

lemma buildNodeRecursive_leaf:
  assumes "refsOf obj = []"
  shows "\<exists>node. buildNodeRecursive (Suc depth) b obj =
           Some (node, [fetchEventsCall (GetKind obj) (GetName obj) (GetNamespace obj)])"
  by (simp add: buildNodeRecursive_Suc assms)


subsection \<open>The reason line of built nodes\<close>

lemma applyConditions_Conditions:
  assumes "set (Conditions node) \<subseteq> range formatCondition"
  shows "set (Conditions (applyConditions node cs)) \<subseteq> range formatCondition"
  using assms
proof (induction cs arbitrary: node)
  case Nil
  then show ?case by simp
next
  case (Cons c cs)
  show ?case
  proof (cases c)
    case (JMap cond)
    show ?thesis
      unfolding JMap applyConditions.simps json.case Let_def
      by (rule Cons.IH) (use Cons.prems in auto)
  qed (use Cons in simp_all)
qed

lemma formatCondition_not_sentinel: "formatCondition cond \<noteq> ''Unknown reason''"
proof
  assume eq: "formatCondition cond = ''Unknown reason''"
  have "CHR ''='' \<in> set (formatCondition cond)"
    by (simp add: formatCondition_def)
  with eq show False by simp
qed

lemma classifyNode_Conditions: "''Unknown reason'' \<notin> set (Conditions (classifyNode obj))"
proof -
  have "set (Conditions (classifyNode obj)) \<subseteq> range formatCondition"
    using applyConditions_Conditions[of "ResourceStatus (GetKind obj) (GetName obj) ''Unknown'' ''Unknown'' [] [] [] []"]
    by (simp add: classifyNode_def Let_def split: nested.splits)
  then show ?thesis using formatCondition_not_sentinel by force
qed

lemma builtFrom_Conditions:
  assumes "builtFrom b obj calls n"
  shows "''Unknown reason'' \<notin> set (Conditions n)"
  using assms unfolding builtFrom_def
  by (auto simp: errorNode_def buildNodeRecursive_header(6) classifyNode_Conditions)

subsection \<open>The states of built nodes\<close>

lemma builtFrom_states:
  assumes "builtFrom b obj calls n"
  shows "(\<exists>kind refName err. n = errorNode kind refName err \<and> Synced n = [] \<and> Ready n = []) \<or>
         (\<exists>obj'. (obj' = obj \<or> (\<exists>gvr name. clientGet b gvr name = Inr obj')) \<and>
            Kind n = GetKind obj' \<and> Name n = GetName obj' \<and>
            Synced n = (case lastStatus ''Synced'' (conditionsOf obj') of
                          None \<Rightarrow> ''Unknown'' | Some s \<Rightarrow> s) \<and>
            Ready n = (case lastStatus ''Ready'' (conditionsOf obj') of
                         None \<Rightarrow> ''Unknown'' | Some s \<Rightarrow> s))"
proof -
  from assms consider
    (leaf) kind refName err where "n = errorNode kind refName err"
  | (built) depth' obj' calls' where "buildNodeRecursive depth' b obj' = Some (n, calls')"
      "obj' = obj \<or> (\<exists>gvr name. clientGet b gvr name = Inr obj')"
    unfolding builtFrom_def by blast
  then show ?thesis
  proof cases
    case leaf
    then show ?thesis by (auto simp: errorNode_fields)
  next
    case built
    from buildNodeRecursive_header[OF built(1)] built(2)
    have "(obj' = obj \<or> (\<exists>gvr name. clientGet b gvr name = Inr obj')) \<and>
            Kind n = GetKind obj' \<and> Name n = GetName obj' \<and>
            Synced n = (case lastStatus ''Synced'' (conditionsOf obj') of
                          None \<Rightarrow> ''Unknown'' | Some s \<Rightarrow> s) \<and>
            Ready n = (case lastStatus ''Ready'' (conditionsOf obj') of
                         None \<Rightarrow> ''Unknown'' | Some s \<Rightarrow> s)"
      by (simp add: classifyNode_Synced classifyNode_Ready)
    then show ?thesis by blast
  qed
qed

text \<open>
  C4, as amended. Every node of a built tree is the leaf of a failed fetch, with the
  empty string in both fields, or it was built from the root or from an object the
  client returned, and then \<^verbatim>\<open>Synced\<close> and \<^verbatim>\<open>Ready\<close> are the raw status of the
  object's last condition of that type, whatever string that is (the empty string when
  the status is no string), and \<^verbatim>\<open>"Unknown"\<close> when the object has no such condition.
\<close>

theorem node_states_raw:
  assumes "buildNodeRecursive depth b obj = Some (tree, calls)"
    and "n \<in> set (allNodes tree)"
  shows "(\<exists>kind refName err. n = errorNode kind refName err \<and> Synced n = [] \<and> Ready n = []) \<or>
         (\<exists>obj'. (obj' = obj \<or> (\<exists>gvr name. clientGet b gvr name = Inr obj')) \<and>
            Kind n = GetKind obj' \<and> Name n = GetName obj' \<and>
            Synced n = (case lastStatus ''Synced'' (conditionsOf obj') of
                          None \<Rightarrow> ''Unknown'' | Some s \<Rightarrow> s) \<and>
            Ready n = (case lastStatus ''Ready'' (conditionsOf obj') of
                         None \<Rightarrow> ''Unknown'' | Some s \<Rightarrow> s))"
  by (rule builtFrom_states[OF buildNodeRecursive_builtFrom[OF assms]])


theorem node_states_raw_witness:
  "buildNodeRecursive 2 exampleClient exampleRoot = Some (exampleTree, exampleCalls) \<and>
   exampleChildNode \<in> set (allNodes exampleTree) \<and>
   ((\<exists>kind refName err.
       exampleChildNode = errorNode kind refName err \<and>
       Synced exampleChildNode = [] \<and> Ready exampleChildNode = []) \<or>
    (\<exists>obj'. (obj' = exampleRoot \<or> (\<exists>gvr name. clientGet exampleClient gvr name = Inr obj')) \<and>
       Kind exampleChildNode = GetKind obj' \<and> Name exampleChildNode = GetName obj' \<and>
       Synced exampleChildNode =
         (case lastStatus ''Synced'' (conditionsOf obj') of None \<Rightarrow> ''Unknown'' | Some s \<Rightarrow> s) \<and>
       Ready exampleChildNode =
         (case lastStatus ''Ready'' (conditionsOf obj') of None \<Rightarrow> ''Unknown'' | Some s \<Rightarrow> s)))"
proof -
  have m: "exampleChildNode \<in> set (allNodes exampleTree)"
    by (simp add: exampleTree_def exampleChildNode_def)
  from node_states_raw[OF example_build m] example_build m show ?thesis by blast
qed

text \<open>
  C4 as stated fails: the leaf of the failed fetch carries the empty string in both
  fields, and a fetched object's node carries whatever its conditions say.
\<close>

theorem node_states_counterexample:
  "buildNodeRecursive 2 exampleClient exampleRoot = Some (exampleTree, exampleCalls) \<and>
   exampleErrorNode \<in> set (allNodes exampleTree) \<and>
   Synced exampleErrorNode = [] \<and> Ready exampleErrorNode = [] \<and>
   map_option fst (buildNodeRecursive 1 exampleClient rawObject) = Some rawNode \<and>
   Synced rawNode = [] \<and> Ready rawNode = ''Creating''"
  by code_simp

subsection \<open>References: failed fetches and skipped entries\<close>

lemma resolveRef_JMap:
  assumes "stringField refMap ''apiVersion'' \<noteq> []"
    and "stringField refMap ''kind'' \<noteq> []"
    and "stringField refMap ''name'' \<noteq> []"
    and "ParseGroupVersion (stringField refMap ''apiVersion'') = Inr gv"
  shows "resolveRef b (JMap refMap) =
           Some (childGVR b gv (stringField refMap ''kind''), stringField refMap ''kind'',
                 stringField refMap ''name'')"
  using assms by (simp add: resolveRef_def)

lemma resolveRef_skipped:
  assumes "stringField refMap ''apiVersion'' = [] \<or> stringField refMap ''kind'' = [] \<or>
           stringField refMap ''name'' = [] \<or>
           ParseGroupVersion (stringField refMap ''apiVersion'') = Inl e"
  shows "resolveRef b (JMap refMap) = None"
  using assms by (auto simp: resolveRef_def)

lemma buildChildren_length:
  assumes "buildChildren depth b refs = Some (children, calls)"
  shows "length children \<le> length refs"
  using assms
proof (induction refs arbitrary: children calls)
  case Nil
  then show ?case by simp
next
  case (Cons ref refs)
  from Cons.prems obtain rest rcalls where
    rest: "buildChildren depth b refs = Some (rest, rcalls)"
    and len: "length children \<le> Suc (length rest)"
    by (auto simp: buildChildren_Cons split: option.splits sum.splits)
  from Cons.IH[OF rest] len show ?case by simp
qed

text \<open>
  C5. A declared reference whose fetch fails adds one leaf to the parent's children, in
  the reference's place: it carries the reference's kind and name and the status
  \<^verbatim>\<open>Error fetching: <message>\<close>, and nothing else, no children, conditions or events.
  The references before and after it are built as they would be without it, and the
  parent is built.
\<close>

theorem failed_fetch_leaf:
  assumes refs: "refsOf obj = before @ JMap refMap # after"
    and api: "stringField refMap ''apiVersion'' \<noteq> []"
    and kind: "stringField refMap ''kind'' = kind" "kind \<noteq> []"
    and name: "stringField refMap ''name'' = refName" "refName \<noteq> []"
    and parse: "ParseGroupVersion (stringField refMap ''apiVersion'') = Inr gv"
    and fail: "clientGet b (childGVR b gv kind) refName = Inl err"
    and before: "buildChildren depth b before = Some (children1, calls1)"
    and after: "buildChildren depth b after = Some (children2, calls2)"
  shows "\<exists>node.
           buildNodeRecursive (Suc depth) b obj =
             Some (node,
                   fetchEventsCall (GetKind obj) (GetName obj) (GetNamespace obj) #
                   calls1 @ GetCall (childGVR b gv kind) refName # calls2) \<and>
           Children node =
             children1 @
             ResourceStatus kind refName [] [] (''Error fetching: '' @ err) [] [] [] # children2"
proof -
  have r: "resolveRef b (JMap refMap) = Some (childGVR b gv kind, kind, refName)"
    using resolveRef_JMap[OF api _ _ parse] kind name by simp
  have one: "buildChildren depth b (JMap refMap # after) =
      Some (errorNode kind refName err # children2, GetCall (childGVR b gv kind) refName # calls2)"
    by (simp add: buildChildren_Cons r fail after)
  have "buildChildren depth b (refsOf obj) =
      Some (children1 @ errorNode kind refName err # children2,
            calls1 @ GetCall (childGVR b gv kind) refName # calls2)"
    unfolding refs buildChildren_append before one by simp
  then show ?thesis
    by (simp add: buildNodeRecursive_Suc errorNode_def)
qed

text \<open>
  C6. A reference with an empty api version, kind or name, or with an api version that
  does not parse, yields no child and no request: the children are built as if the entry
  were not in the list, so their count excludes it and no error node stands for it.
\<close>

theorem incomplete_reference_skipped:
  assumes "stringField refMap ''apiVersion'' = [] \<or> stringField refMap ''kind'' = [] \<or>
           stringField refMap ''name'' = [] \<or>
           ParseGroupVersion (stringField refMap ''apiVersion'') = Inl e"
  shows "buildChildren depth b (before @ JMap refMap # after) =
           buildChildren depth b (before @ after) \<and>
         (\<forall>children calls.
            buildChildren depth b (before @ JMap refMap # after) = Some (children, calls) \<longrightarrow>
            length children \<le> length before + length after) \<and>
         (\<forall>node calls.
            refsOf obj = before @ JMap refMap # after \<and>
            buildNodeRecursive (Suc depth) b obj = Some (node, calls) \<longrightarrow>
            buildChildren depth b (before @ after) = Some (Children node, tl calls) \<and>
            length (Children node) \<le> length before + length after)"
proof -
  have r: "resolveRef b (JMap refMap) = None"
    by (rule resolveRef_skipped[OF assms])
  have one: "buildChildren depth b (JMap refMap # after) = buildChildren depth b after"
    by (simp add: buildChildren_Cons r)
  have eq: "buildChildren depth b (before @ JMap refMap # after) =
           buildChildren depth b (before @ after)"
    unfolding buildChildren_append one ..
  have len: "length children \<le> length before + length after"
    if "buildChildren depth b (before @ JMap refMap # after) = Some (children, calls)"
    for children calls
    using buildChildren_length[of depth b "before @ after" children calls] that eq by simp
  have parent: "buildChildren depth b (before @ after) = Some (Children node, tl calls) \<and>
            length (Children node) \<le> length before + length after"
    if "refsOf obj = before @ JMap refMap # after"
      and "buildNodeRecursive (Suc depth) b obj = Some (node, calls)"
    for node calls
  proof -
    from that obtain children ccalls where
      c: "buildChildren depth b (before @ JMap refMap # after) = Some (children, ccalls)"
      and n: "Children node = children" "tl calls = ccalls"
      by (auto simp: buildNodeRecursive_Suc split: option.splits)
    from c eq len[OF c] n show ?thesis by simp
  qed
  from eq len parent show ?thesis by blast
qed


theorem failed_fetch_leaf_witness:
  "refsOf exampleRoot = [JMap refChild, JMap refNoVersion, JMap refBadVersion] @ JMap refGone # [] \<and>
   clientGet exampleClient (childGVR exampleClient ([], ''v1'') ''Bucket'') ''gone'' = Inl ''not found'' \<and>
   (\<exists>node.
      buildNodeRecursive (Suc 1) exampleClient exampleRoot =
        Some (node,
              fetchEventsCall (GetKind exampleRoot) (GetName exampleRoot)
                (GetNamespace exampleRoot) #
              [GetCall \<lparr>Group = ''rds.aws'', Version = ''v1'', Resource = ''rdsinstances''\<rparr>
                 ''my-db-abc'',
               ListCall eventsGVR [] (fieldSelector ''RDSInstance'' ''my-db-abc'')] @
              GetCall (childGVR exampleClient ([], ''v1'') ''Bucket'') ''gone'' # []) \<and>
      Children node =
        [exampleChildNode] @
        ResourceStatus ''Bucket'' ''gone'' [] [] (''Error fetching: '' @ ''not found'') [] [] [] # [])"
proof -
  have refs: "refsOf exampleRoot =
      [JMap refChild, JMap refNoVersion, JMap refBadVersion] @ JMap refGone # []"
    by code_simp
  have api: "stringField refGone ''apiVersion'' \<noteq> []" by code_simp
  have kind: "stringField refGone ''kind'' = ''Bucket''" "''Bucket'' \<noteq> []" by code_simp+
  have name: "stringField refGone ''name'' = ''gone''" "''gone'' \<noteq> []" by code_simp+
  have parse: "ParseGroupVersion (stringField refGone ''apiVersion'') = Inr ([], ''v1'')"
    by code_simp
  have fail: "clientGet exampleClient (childGVR exampleClient ([], ''v1'') ''Bucket'') ''gone'' = Inl ''not found''"
    by (simp add: exampleClient_def)
  have before: "buildChildren 1 exampleClient [JMap refChild, JMap refNoVersion, JMap refBadVersion] =
      Some ([exampleChildNode],
            [GetCall \<lparr>Group = ''rds.aws'', Version = ''v1'', Resource = ''rdsinstances''\<rparr>
               ''my-db-abc'',
             ListCall eventsGVR [] (fieldSelector ''RDSInstance'' ''my-db-abc'')])"
    by code_simp
  have after: "buildChildren 1 exampleClient [] = Some ([], [])" by simp
  from failed_fetch_leaf[OF refs api kind name parse fail before after] refs fail
  show ?thesis by blast
qed

theorem incomplete_reference_skipped_witness:
  "stringField refNoVersion ''apiVersion'' = [] \<and>
   ParseGroupVersion (stringField refBadVersion ''apiVersion'') =
     Inl ''unexpected GroupVersion string: a/b/c'' \<and>
   buildChildren 1 exampleClient ([JMap refChild] @ JMap refNoVersion # [JMap refBadVersion, JMap refGone]) =
     buildChildren 1 exampleClient ([JMap refChild] @ [JMap refBadVersion, JMap refGone]) \<and>
   buildChildren 1 exampleClient ([JMap refChild] @ JMap refBadVersion # [JMap refGone]) =
     buildChildren 1 exampleClient ([JMap refChild] @ [JMap refGone]) \<and>
   map_option fst (buildChildren 1 exampleClient exampleRefs) =
     Some [exampleChildNode, exampleErrorNode]"
proof -
  have a: "stringField refNoVersion ''apiVersion'' = []" by code_simp
  have p: "ParseGroupVersion (stringField refBadVersion ''apiVersion'') =
     Inl ''unexpected GroupVersion string: a/b/c''" by code_simp
  have b: "map_option fst (buildChildren 1 exampleClient exampleRefs) =
     Some [exampleChildNode, exampleErrorNode]" by code_simp
  have 1: "buildChildren 1 exampleClient ([JMap refChild] @ JMap refNoVersion # [JMap refBadVersion, JMap refGone]) =
     buildChildren 1 exampleClient ([JMap refChild] @ [JMap refBadVersion, JMap refGone])"
    using incomplete_reference_skipped[of refNoVersion _ 1 exampleClient "[JMap refChild]"
        "[JMap refBadVersion, JMap refGone]"] a by blast
  have 2: "buildChildren 1 exampleClient ([JMap refChild] @ JMap refBadVersion # [JMap refGone]) =
     buildChildren 1 exampleClient ([JMap refChild] @ [JMap refGone])"
    using incomplete_reference_skipped[of refBadVersion "''unexpected GroupVersion string: a/b/c''"
        1 exampleClient "[JMap refChild]" "[JMap refGone]"] p by blast
  from a p 1 2 b show ?thesis by blast
qed

subsection \<open>Events\<close>

lemma clientGet_noEvents: "clientGet (noEvents err b) = clientGet b"
  by (simp add: noEvents_def)

lemma childGVR_noEvents: "childGVR (noEvents err b) gv kind = childGVR b gv kind"
  by (simp add: childGVR_def noEvents_def)

lemma resolveRef_noEvents: "resolveRef (noEvents err b) ref = resolveRef b ref"
  by (simp add: resolveRef_def childGVR_noEvents split: json.splits sum.splits)

lemma eventsOf_noEvents: "eventsOf (noEvents err b) obj = []"
  by (simp add: eventsOf_def fetchEvents_def noEvents_def)

lemma clearEvents_errorNode:
  "clearEvents (errorNode kind refName e) = errorNode kind refName e"
  by (simp add: errorNode_def)

lemma buildChildren_noEvents:
  assumes IH: "\<And>obj. buildNodeRecursive depth (noEvents err b) obj =
                 map_option (\<lambda>(t, c). (clearEvents t, c)) (buildNodeRecursive depth b obj)"
  shows "buildChildren depth (noEvents err b) refs =
           map_option (\<lambda>(ts, c). (clearEventsOf ts, c)) (buildChildren depth b refs)"
proof (induction refs)
  case Nil
  show ?case by simp
next
  case (Cons ref refs)
  show ?case
    unfolding buildChildren_Cons[of depth "noEvents err b"] buildChildren_Cons[of depth b]
      Cons.IH IH clientGet_noEvents resolveRef_noEvents
    by (simp add: clearEvents_errorNode split: option.splits sum.splits prod.splits)
qed

lemma buildNodeRecursive_noEvents:
  "buildNodeRecursive depth (noEvents err b) obj =
     map_option (\<lambda>(t, c). (clearEvents t, c)) (buildNodeRecursive depth b obj)"
proof (induction depth arbitrary: obj)
  case 0
  show ?case by simp
next
  case (Suc depth)
  show ?case
    unfolding buildNodeRecursive_Suc buildChildren_noEvents[of depth err b, OF Suc.IH]
      eventsOf_noEvents
    by (simp split: option.splits prod.splits)
qed

lemma buildNodeRecursive_first_call:
  assumes "buildNodeRecursive depth b obj = Some (node, calls)"
  shows "\<exists>rest. calls = fetchEventsCall (GetKind obj) (GetName obj) (GetNamespace obj) # rest"
    and "Events node = eventsOf b obj"
  using assms
  by (cases depth; auto simp: buildNodeRecursive_Suc split: option.splits)+

lemma builtFrom_events_call:
  assumes "builtFrom b obj calls n"
  shows "(\<exists>kind refName e. n = errorNode kind refName e) \<or>
         (\<exists>namespace. fetchEventsCall (Kind n) (Name n) namespace \<in> set calls)"
proof -
  from assms consider
    (leaf) kind refName e where "n = errorNode kind refName e"
  | (built) depth' obj' calls' where "buildNodeRecursive depth' b obj' = Some (n, calls')"
      "set calls' \<subseteq> set calls"
    unfolding builtFrom_def by blast
  then show ?thesis
  proof cases
    case leaf
    then show ?thesis by blast
  next
    case built
    from buildNodeRecursive_first_call(1)[OF built(1)] obtain rest where
      "calls' = fetchEventsCall (GetKind obj') (GetName obj') (GetNamespace obj') # rest"
      by blast
    with built(2) buildNodeRecursive_header(1,2)[OF built(1)]
    have "fetchEventsCall (Kind n) (Name n) (GetNamespace obj') \<in> set calls" by auto
    then show ?thesis by blast
  qed
qed

text \<open>
  C7. Whatever the status of a node, building it starts with the event request for its
  kind, name and namespace, and the requests of a tree hold one for every node built from
  a fetched object. When that fetch fails the node has no events; and when every event
  fetch fails, the same tree is built from the same requests, with no events in any node:
  an event-fetch error fails neither the node nor the tree.
\<close>

theorem events_fetched_and_failure_swallowed:
  assumes "buildNodeRecursive depth b obj = Some (node, calls)"
  shows "calls \<noteq> [] \<and>
         hd calls = fetchEventsCall (GetKind obj) (GetName obj) (GetNamespace obj) \<and>
         (\<forall>n \<in> set (allNodes node).
            (\<exists>kind refName e. n = errorNode kind refName e) \<or>
            (\<exists>namespace. fetchEventsCall (Kind n) (Name n) namespace \<in> set calls)) \<and>
         (\<forall>e. fetchEvents b (GetKind obj) (GetName obj) (GetNamespace obj) = Inl e \<longrightarrow>
              Events node = []) \<and>
         buildNodeRecursive depth (noEvents err b) obj = Some (clearEvents node, calls)"
proof -
  from buildNodeRecursive_first_call(1)[OF assms]
  have 1: "calls \<noteq> [] \<and>
         hd calls = fetchEventsCall (GetKind obj) (GetName obj) (GetNamespace obj)"
    by auto
  have 2: "\<forall>n \<in> set (allNodes node).
            (\<exists>kind refName e. n = errorNode kind refName e) \<or>
            (\<exists>namespace. fetchEventsCall (Kind n) (Name n) namespace \<in> set calls)"
    using builtFrom_events_call[OF buildNodeRecursive_builtFrom[OF assms]] by blast
  have 3: "\<forall>e. fetchEvents b (GetKind obj) (GetName obj) (GetNamespace obj) = Inl e \<longrightarrow>
              Events node = []"
    using buildNodeRecursive_first_call(2)[OF assms] by (simp add: eventsOf_def)
  have 4: "buildNodeRecursive depth (noEvents err b) obj = Some (clearEvents node, calls)"
    unfolding buildNodeRecursive_noEvents assms by simp
  from 1 2 3 4 show ?thesis by blast
qed

theorem events_fetched_and_failure_swallowed_witness:
  "buildNodeRecursive 2 exampleClient exampleRoot = Some (exampleTree, exampleCalls) \<and>
   Status exampleTree = ''Available'' \<and>
   hd exampleCalls = ListCall eventsGVR [] (fieldSelector ''XDatabase'' ''my-db'') \<and>
   buildNodeRecursive 2 (noEvents ''forbidden'' exampleClient) exampleRoot =
     Some (clearEvents exampleTree, exampleCalls) \<and>
   Events (clearEvents exampleTree) = [] \<and>
   map Events (Children (clearEvents exampleTree)) = [[], []]"
proof -
  have st: "Status exampleTree = ''Available''" by (simp add: exampleTree_def)
  have hd: "hd exampleCalls = ListCall eventsGVR [] (fieldSelector ''XDatabase'' ''my-db'')"
    by (simp add: exampleCalls_def)
  have ev: "Events (clearEvents exampleTree) = []"
    "map Events (Children (clearEvents exampleTree)) = [[], []]"
    by (simp_all add: exampleTree_def exampleChildNode_def exampleErrorNode_def)
  from events_fetched_and_failure_swallowed[OF example_build, of "''forbidden''"]
  have "buildNodeRecursive 2 (noEvents ''forbidden'' exampleClient) exampleRoot =
     Some (clearEvents exampleTree, exampleCalls)" by blast
  with example_build st hd ev show ?thesis by blast
qed


subsection \<open>The text of the summary\<close>

text \<open>The text that \<^const>\<open>GetSummary\<close> returns, in closed form.\<close>

lemma writeUnhealthy_concat: "writeUnhealthy sb xs = sb @ concat (map childEntry xs)"
  by (induction xs arbitrary: sb) simp_all

lemma summaryLoop_text:
  "fst (summaryLoop (sb, failuresFound, hasFailures) data) = sb @ concat (map treeSection data)"
proof (induction data arbitrary: sb failuresFound hasFailures)
  case Nil
  show ?case by simp
next
  case (Cons d data)
  show ?case
    by (cases "Tree d")
       (simp_all add: Cons.IH treeSection_def topParentLine_def writeUnhealthy_concat Let_def)
qed

lemma GetSummary_text:
  "GetSummary data =
     (summaryHeader @ concat (map treeSection data) @
        (if \<exists>d \<in> set data. hasUnhealthy d then [] else healthyLine),
      \<exists>d \<in> set data. hasUnhealthy d)"
proof -
  obtain sb ff hf where r: "summaryLoop (summaryHeader, False, False) data = (sb, ff, hf)"
    by (cases "summaryLoop (summaryHeader, False, False) data") auto
  from summaryLoop_flags[of summaryHeader False False data] r
  have f: "ff = (\<exists>d \<in> set data. hasUnhealthy d)" "hf = (\<exists>d \<in> set data. hasUnhealthy d)"
    by simp_all
  from summaryLoop_text[of summaryHeader False False data] r
  have t: "sb = summaryHeader @ concat (map treeSection data)" by simp
  show ?thesis unfolding GetSummary_def r using f t by simp
qed

lemma concat_map_split:
  assumes "x \<in> set xs"
  shows "\<exists>pre post. concat (map f xs) = pre @ f x @ post"
proof -
  from assms obtain ys zs where "xs = ys @ x # zs" by (auto dest: split_list)
  then have "concat (map f xs) = concat (map f ys) @ f x @ concat (map f zs)" by simp
  then show ?thesis by blast
qed

text \<open>
  Every collected node has its entry in the text, after the line of its top parent.
\<close>

lemma GetSummary_entry:
  assumes "d \<in> set data" and "Tree d = Some tree" and "res \<in> set (collectUnhealthy tree)"
  shows "snd (GetSummary data) \<and>
         (\<exists>pre mid post.
            fst (GetSummary data) =
              summaryHeader @ pre @ topParentLine d @ mid @ childEntry res @ post)"
proof -
  from assms(3) have ne: "collectUnhealthy tree \<noteq> []" by auto
  with assms(2) have "hasUnhealthy d" by (simp add: hasUnhealthy_def)
  with assms(1) have bad: "\<exists>d \<in> set data. hasUnhealthy d" by blast
  from concat_map_split[OF assms(3), of childEntry] obtain mid rest where
    "concat (map childEntry (collectUnhealthy tree)) = mid @ childEntry res @ rest" by blast
  with ne assms(2) have sec: "treeSection d = topParentLine d @ mid @ childEntry res @ rest @ newline"
    by (simp add: treeSection_def)
  from concat_map_split[OF assms(1), of treeSection] obtain pre post where
    "concat (map treeSection data) = pre @ treeSection d @ post" by blast
  with sec bad have "fst (GetSummary data) =
      summaryHeader @ pre @ topParentLine d @ mid @ childEntry res @ (rest @ newline @ post)"
    by (simp add: GetSummary_text)
  with bad show ?thesis by (auto simp: GetSummary_text)
qed


text \<open>
  On trees that the builder built, the code's text is the specification's: no condition
  line of a built node is the literal \<^verbatim>\<open>Unknown reason\<close>.
\<close>

lemma unhealthyNodes_collect: "unhealthyNodes tree = collectUnhealthy tree"
  by (simp add: unhealthyNodes_def collectUnhealthy_filter(1))

lemma failingTree_hasUnhealthy: "failingTree d = hasUnhealthy d"
  by (simp add: failingTree_def hasUnhealthy_def unhealthyNodes_collect split: option.splits)

lemma pickReason_built:
  assumes "buildNodeRecursive depth b obj = Some (tree, calls)"
    and "res \<in> set (allNodes tree)"
  shows "pickReason res = specReason res"
  by (rule pickReason_specReason[OF builtFrom_Conditions[OF buildNodeRecursive_builtFrom[OF assms]]])

lemma childEntry_built:
  assumes "buildNodeRecursive depth b obj = Some (tree, calls)"
    and "res \<in> set (allNodes tree)"
  shows "childEntry res = specEntry res"
  by (simp add: childEntry_def specEntry_def pickReason_built[OF assms])

lemma treeSection_built:
  assumes "\<forall>tree. Tree d = Some tree \<longrightarrow>
             (\<exists>depth b obj calls. buildNodeRecursive depth b obj = Some (tree, calls))"
  shows "treeSection d = specSection d"
proof (cases "Tree d")
  case None
  then show ?thesis by (simp add: treeSection_def specSection_def)
next
  case (Some tree)
  with assms obtain depth b obj calls where
    b: "buildNodeRecursive depth b obj = Some (tree, calls)" by blast
  have "concat (map childEntry (collectUnhealthy tree)) =
        concat (map specEntry (collectUnhealthy tree))"
  proof (rule arg_cong[where f = concat], rule map_cong[OF refl])
    fix res assume "res \<in> set (collectUnhealthy tree)"
    then have "res \<in> set (allNodes tree)" by (simp add: collectUnhealthy_filter(1))
    then show "childEntry res = specEntry res" by (rule childEntry_built[OF b])
  qed
  with Some show ?thesis
    by (simp add: treeSection_def specSection_def unhealthyNodes_collect)
qed

text \<open>
  C3. For every forest of built trees, the summary that \<^const>\<open>GetSummary\<close> returns is
  the specification's: after the line of its top parent, every node whose status is
  neither \<^verbatim>\<open>"Available"\<close> nor \<^verbatim>\<open>"Synced"\<close> has one entry with its kind, name and
  status and one reason line, and that reason is the first condition line containing
  \<^verbatim>\<open>"False"\<close> or \<^verbatim>\<open>"Unknown"\<close>, else the first condition line, else the first event
  line, else the literal \<^verbatim>\<open>Unknown reason\<close>. In the scenario of the specification the
  child's reason is \<^verbatim>\<open>Ready=False (CreateFailed): AWS error\<close>.
\<close>

theorem reason_line_order:
  assumes built: "\<forall>d \<in> set data. \<forall>tree. Tree d = Some tree \<longrightarrow>
             (\<exists>depth b obj calls. buildNodeRecursive depth b obj = Some (tree, calls))"
  shows "GetSummary data = specSummary data \<and>
         (\<forall>d \<in> set data. \<forall>tree. Tree d = Some tree \<longrightarrow>
            (\<forall>res \<in> set (unhealthyNodes tree).
               pickReason res = specReason res \<and>
               (\<exists>pre mid post.
                  fst (GetSummary data) =
                    summaryHeader @ pre @ topParentLine d @ mid @ specEntry res @ post)))"
proof -
  have "concat (map treeSection data) = concat (map specSection data)"
    by (rule arg_cong[where f = concat], rule map_cong[OF refl])
       (use built in \<open>auto intro!: treeSection_built\<close>)
  moreover have "(\<exists>d \<in> set data. hasUnhealthy d) = list_ex failingTree data"
    by (simp add: list_ex_iff failingTree_hasUnhealthy)
  ultimately have 1: "GetSummary data = specSummary data"
    by (simp add: GetSummary_text specSummary_def)
  have 2: "pickReason res = specReason res \<and>
               (\<exists>pre mid post.
                  fst (GetSummary data) =
                    summaryHeader @ pre @ topParentLine d @ mid @ specEntry res @ post)"
    if d: "d \<in> set data" and t: "Tree d = Some tree" and r: "res \<in> set (unhealthyNodes tree)"
    for d tree res
  proof -
    from built d t obtain depth b obj calls where
      b: "buildNodeRecursive depth b obj = Some (tree, calls)" by blast
    from r have c: "res \<in> set (collectUnhealthy tree)" by (simp add: unhealthyNodes_collect)
    then have a: "res \<in> set (allNodes tree)" by (simp add: collectUnhealthy_filter(1))
    from GetSummary_entry[OF d t c] childEntry_built[OF b a] pickReason_built[OF b a]
    show ?thesis by simp
  qed
  from 1 2 show ?thesis by blast
qed


lemma late_build:
  "buildNodeRecursive 1 exampleClient lateObject =
     Some (lateNode, [ListCall eventsGVR [] (fieldSelector ''Subnet'' ''net-3'')])"
  by code_simp

theorem reason_line_order_witness:
  "buildNodeRecursive 2 exampleClient exampleRoot = Some (exampleTree, exampleCalls) \<and>
   buildNodeRecursive 1 exampleClient lateObject =
     Some (lateNode, [ListCall eventsGVR [] (fieldSelector ''Subnet'' ''net-3'')]) \<and>
   Conditions lateNode = [''Synced=True (): '', ''Ready=False (Creating): waiting''] \<and>
   pickReason lateNode = ''Ready=False (Creating): waiting'' \<and>
   pickReason exampleChildNode = ''Ready=False (CreateFailed): AWS error'' \<and>
   GetSummary [exampleData, lateData] =
     (summaryHeader @
      topParentLine exampleData @
      ''  - Child RDSInstance/my-db-abc: Unhealthy'' @ newline @
      ''    Reason: Ready=False (CreateFailed): AWS error'' @ newline @
      ''  - Child Bucket/gone: Error fetching: not found'' @ newline @
      ''    Reason: Unknown reason'' @ newline @
      newline @
      topParentLine lateData @
      ''  - Child Subnet/net-3: Unhealthy'' @ newline @
      ''    Reason: Ready=False (Creating): waiting'' @ newline @
      newline,
      True)"
proof -
  have built: "\<forall>d \<in> set [exampleData, lateData]. \<forall>tree. Tree d = Some tree \<longrightarrow>
             (\<exists>depth b obj calls. buildNodeRecursive depth b obj = Some (tree, calls))"
    using example_build late_build by (auto simp: exampleData_def lateData_def)
  note inst = reason_line_order[OF built]
  have spec: "specSummary [exampleData, lateData] =
     (summaryHeader @
      topParentLine exampleData @
      ''  - Child RDSInstance/my-db-abc: Unhealthy'' @ newline @
      ''    Reason: Ready=False (CreateFailed): AWS error'' @ newline @
      ''  - Child Bucket/gone: Error fetching: not found'' @ newline @
      ''    Reason: Unknown reason'' @ newline @
      newline @
      topParentLine lateData @
      ''  - Child Subnet/net-3: Unhealthy'' @ newline @
      ''    Reason: Ready=False (Creating): waiting'' @ newline @
      newline,
      True)"
    by code_simp
  have c: "Conditions lateNode = [''Synced=True (): '', ''Ready=False (Creating): waiting'']"
    by (simp add: lateNode_def)
  have m: "lateNode \<in> set (unhealthyNodes lateNode)"
    "exampleChildNode \<in> set (unhealthyNodes exampleTree)"
    by code_simp+
  have s: "specReason lateNode = ''Ready=False (Creating): waiting''"
    "specReason exampleChildNode = ''Ready=False (CreateFailed): AWS error''"
    by code_simp+
  have t: "Tree lateData = Some lateNode" "Tree exampleData = Some exampleTree"
    by (simp_all add: lateData_def exampleData_def)
  from inst t m s have p: "pickReason lateNode = ''Ready=False (Creating): waiting''"
    "pickReason exampleChildNode = ''Ready=False (CreateFailed): AWS error''"
    by auto
  from inst spec have "GetSummary [exampleData, lateData] =
     (summaryHeader @
      topParentLine exampleData @
      ''  - Child RDSInstance/my-db-abc: Unhealthy'' @ newline @
      ''    Reason: Ready=False (CreateFailed): AWS error'' @ newline @
      ''  - Child Bucket/gone: Error fetching: not found'' @ newline @
      ''    Reason: Unknown reason'' @ newline @
      newline @
      topParentLine lateData @
      ''  - Child Subnet/net-3: Unhealthy'' @ newline @
      ''    Reason: Ready=False (Creating): waiting'' @ newline @
      newline,
      True)" by simp
  with example_build late_build c p show ?thesis by blast
qed

text \<open>
  C10. The leaf of a failed fetch, in any tree of the forest given to
  \<^const>\<open>GetSummary\<close>, is collected as unhealthy: the summary reports failures, and its
  text, which is the header and the sections of the trees, holds the leaf's entry after
  the line of its top parent, with the reason \<^verbatim>\<open>Unknown reason\<close>: the leaf has no
  conditions and no events.
\<close>

theorem errorNode_summarized:
  assumes "d \<in> set data" and "Tree d = Some tree"
    and "errorNode kind refName err \<in> set (allNodes tree)"
  shows "errorNode kind refName err \<in> set (collectUnhealthy tree) \<and>
         pickReason (errorNode kind refName err) = ''Unknown reason'' \<and>
         snd (GetSummary data) \<and>
         fst (GetSummary data) = summaryHeader @ concat (map treeSection data) \<and>
         (\<exists>pre mid post.
            fst (GetSummary data) =
              summaryHeader @ pre @ topParentLine d @ mid @
              (''  - Child '' @ kind @ ''/'' @ refName @ '': Error fetching: '' @ err @ newline @
               ''    Reason: Unknown reason'' @ newline) @ post)"
proof -
  have "Status (errorNode kind refName err) \<noteq> ''Available''"
    "Status (errorNode kind refName err) \<noteq> ''Synced''"
    by (simp_all add: errorNode_def)
  with assms(3) have c: "errorNode kind refName err \<in> set (collectUnhealthy tree)"
    by (simp add: collectUnhealthy_filter(1))
  have r: "pickReason (errorNode kind refName err) = ''Unknown reason''"
    by (simp add: pickReason_def errorNode_def)
  have e: "childEntry (errorNode kind refName err) =
           ''  - Child '' @ kind @ ''/'' @ refName @ '': Error fetching: '' @ err @ newline @
           ''    Reason: Unknown reason'' @ newline"
    unfolding childEntry_def r by (simp add: errorNode_def)
  from GetSummary_entry[OF assms(1,2) c]
  have s: "snd (GetSummary data)"
    and x: "\<exists>pre mid post. fst (GetSummary data) =
              summaryHeader @ pre @ topParentLine d @ mid @
              childEntry (errorNode kind refName err) @ post"
    by blast+
  from s have t: "fst (GetSummary data) = summaryHeader @ concat (map treeSection data)"
    by (simp add: GetSummary_text)
  from c r s t x show ?thesis unfolding e by blast
qed

theorem errorNode_summarized_witness:
  "exampleData \<in> set [exampleData] \<and> Tree exampleData = Some exampleTree \<and>
   errorNode ''Bucket'' ''gone'' ''not found'' \<in> set (allNodes exampleTree) \<and>
   errorNode ''Bucket'' ''gone'' ''not found'' \<in> set (collectUnhealthy exampleTree) \<and>
   pickReason (errorNode ''Bucket'' ''gone'' ''not found'') = ''Unknown reason'' \<and>
   snd (GetSummary [exampleData]) \<and>
   GetSummary [exampleData] =
     (summaryHeader @
      topParentLine exampleData @
      ''  - Child RDSInstance/my-db-abc: Unhealthy'' @ newline @
      ''    Reason: Ready=False (CreateFailed): AWS error'' @ newline @
      ''  - Child Bucket/gone: Error fetching: not found'' @ newline @
      ''    Reason: Unknown reason'' @ newline @
      newline,
      True)"
proof -
  have d: "exampleData \<in> set [exampleData]" by simp
  have t: "Tree exampleData = Some exampleTree" by (simp add: exampleData_def)
  have m: "errorNode ''Bucket'' ''gone'' ''not found'' \<in> set (allNodes exampleTree)"
    by (simp add: exampleTree_def exampleErrorNode_def exampleChildNode_def errorNode_def)
  note inst = errorNode_summarized[OF d t m]
  have sec: "concat (map treeSection [exampleData]) =
      topParentLine exampleData @
      ''  - Child RDSInstance/my-db-abc: Unhealthy'' @ newline @
      ''    Reason: Ready=False (CreateFailed): AWS error'' @ newline @
      ''  - Child Bucket/gone: Error fetching: not found'' @ newline @
      ''    Reason: Unknown reason'' @ newline @
      newline"
    by code_simp
  from inst sec have "GetSummary [exampleData] =
     (summaryHeader @
      topParentLine exampleData @
      ''  - Child RDSInstance/my-db-abc: Unhealthy'' @ newline @
      ''    Reason: Ready=False (CreateFailed): AWS error'' @ newline @
      ''  - Child Bucket/gone: Error fetching: not found'' @ newline @
      ''    Reason: Unknown reason'' @ newline @
      newline,
      True)"
    by (simp add: prod_eq_iff)
  with inst d t m show ?thesis by blast
qed


end
